theory Spec2Isabelle
  imports Main
begin

section \<open>Platform functions the code calls\<close>

text \<open>
  The exporter is TypeScript on Node with Prisma over SQLite. Three library behaviours are
  used by the code and are not part of the repository: \<open>Number.prototype.toFixed(2)\<close>
  on a floating-point price, \<open>Date.prototype.toISOString()\<close>, and the way the database
  evaluates Prisma's \<open>{ contains: s }\<close> on a text column. They are taken as parameters,
  bundled in one record; \<open>'p\<close> is the type of prices and \<open>'d\<close> the type of dates.
\<close>

record ('p, 'd) platform =
  name_contains :: "string \<Rightarrow> string \<Rightarrow> bool"
  toFixed2 :: "'p \<Rightarrow> string"
  toISOString :: "'d \<Rightarrow> string"

section \<open>src/lib/csvUtils.ts\<close>

text \<open>\<open>ProductRow\<close>: the row type of the product table.\<close>

record ('p, 'd) ProductRow =
  p_id :: int
  p_name :: string
  p_category :: string
  p_price :: 'p
  p_quantity :: int
  p_status :: string
  p_createdAt :: 'd

definition comma :: char where
  "comma = CHR '',''"

definition dquote :: char where
  "dquote = CHR 0x22"

definition newline :: char where
  "newline = CHR 0x0A"

definition CSV_HEADER :: string where
  "CSV_HEADER = ''id,name,category,price,quantity,status,createdAt'' @ [newline]"

text \<open>\<open>val.replace(/"/g, '""')\<close>: every double quote is doubled.\<close>

definition replace_quotes :: "string \<Rightarrow> string" where
  "replace_quotes val = concat (map (\<lambda>c. if c = dquote then [dquote, dquote] else [c]) val)"

definition escapeCsv :: "string \<Rightarrow> string" where
  "escapeCsv val =
     (if comma \<in> set val \<or> dquote \<in> set val \<or> newline \<in> set val
      then [dquote] @ replace_quotes val @ [dquote]
      else val)"

text \<open>\<open>Array.prototype.join\<close> on an array of strings.\<close>

fun join :: "string \<Rightarrow> string list \<Rightarrow> string" where
  "join sep [] = []"
| "join sep [x] = x"
| "join sep (x # y # ys) = x @ sep @ join sep (y # ys)"

text \<open>
  \<open>id\<close> and \<open>quantity\<close> are INTEGER columns; \<open>join\<close> turns them into text with
  \<open>String(n)\<close>, the decimal digits of the integer with a leading minus sign when negative.
\<close>

fun digits :: "nat \<Rightarrow> string" where
  "digits n = (if n < 10 then [''0123456789'' ! n]
               else digits (n div 10) @ [''0123456789'' ! (n mod 10)])"

definition number_to_string :: "int \<Rightarrow> string" where
  "number_to_string i = (if i < 0 then CHR ''-'' # digits (nat (- i)) else digits (nat i))"

definition rowToCsvLine :: "('p, 'd) platform \<Rightarrow> ('p, 'd) ProductRow \<Rightarrow> string" where
  "rowToCsvLine pf product =
     join [comma]
       [ number_to_string (p_id product),
         escapeCsv (p_name product),
         escapeCsv (p_category product),
         toFixed2 pf (p_price product),
         number_to_string (p_quantity product),
         escapeCsv (p_status product),
         toISOString pf (p_createdAt product) ] @ [newline]"

section \<open>The CSV format the specification refers to\<close>

text \<open>
  Modelled from the spec: the quoting rule in the specification's words (RFC 4180), to be
  compared with \<open>escapeCsv\<close>. A field that contains a comma, a
  double quote or a newline is wrapped in double quotes, with every double quote inside it
  doubled; any other field is written as it is.
\<close>

definition plain :: "string \<Rightarrow> bool" where
  "plain s = (comma \<notin> set s \<and> dquote \<notin> set s \<and> newline \<notin> set s)"

definition rfc4180_field :: "string \<Rightarrow> string" where
  "rfc4180_field v =
     (if plain v then v
      else dquote # concat (map (\<lambda>c. if c = dquote then [c, c] else [c]) v) @ [dquote])"

text \<open>The seven fields of a row as text, before any quoting.\<close>

definition row_fields :: "('p, 'd) platform \<Rightarrow> ('p, 'd) ProductRow \<Rightarrow> string list" where
  "row_fields pf product =
     [ number_to_string (p_id product), p_name product, p_category product,
       toFixed2 pf (p_price product), number_to_string (p_quantity product),
       p_status product, toISOString pf (p_createdAt product) ]"

definition header_fields :: "string list" where
  "header_fields =
     [''id'', ''name'', ''category'', ''price'', ''quantity'', ''status'', ''createdAt'']"

text \<open>
  Modelled from the spec: the reader \<open>parseCsv\<close> of the round-trip property. The
  repository has no CSV reader. This is an RFC 4180 reader written from the RFC's rules: records end at a
  line break, fields are separated by commas, a field may be enclosed in double quotes, and
  inside an enclosed field a doubled double quote stands for one. The line break is the
  single newline character that \<open>rowToCsvLine\<close> and \<open>CSV_HEADER\<close> end their lines with.
  The reader is a state machine over the characters; \<open>f\<close> is the field being read, \<open>r\<close>
  the fields of the record being read, \<open>rs\<close> the records read so far.
\<close>

datatype pstate = FieldStart | InUnquoted | InQuoted | QuoteSeen

fun parseCsv_go ::
  "pstate \<Rightarrow> string \<Rightarrow> string list \<Rightarrow> string list list \<Rightarrow> string \<Rightarrow> string list list" where
  "parseCsv_go st f r rs [] =
     (if st = FieldStart \<and> r = [] then rs else rs @ [r @ [f]])"
| "parseCsv_go FieldStart f r rs (c # cs) =
     (if c = dquote then parseCsv_go InQuoted f r rs cs
      else if c = comma then parseCsv_go FieldStart [] (r @ [f]) rs cs
      else if c = newline then parseCsv_go FieldStart [] [] (rs @ [r @ [f]]) cs
      else parseCsv_go InUnquoted (f @ [c]) r rs cs)"
| "parseCsv_go InUnquoted f r rs (c # cs) =
     (if c = comma then parseCsv_go FieldStart [] (r @ [f]) rs cs
      else if c = newline then parseCsv_go FieldStart [] [] (rs @ [r @ [f]]) cs
      else parseCsv_go InUnquoted (f @ [c]) r rs cs)"
| "parseCsv_go InQuoted f r rs (c # cs) =
     (if c = dquote then parseCsv_go QuoteSeen f r rs cs
      else parseCsv_go InQuoted (f @ [c]) r rs cs)"
| "parseCsv_go QuoteSeen f r rs (c # cs) =
     (if c = dquote then parseCsv_go InQuoted (f @ [dquote]) r rs cs
      else if c = comma then parseCsv_go FieldStart [] (r @ [f]) rs cs
      else if c = newline then parseCsv_go FieldStart [] [] (rs @ [r @ [f]]) cs
      else parseCsv_go InUnquoted (f @ [c]) r rs cs)"

definition parseCsv :: "string \<Rightarrow> string list list" where
  "parseCsv s = parseCsv_go FieldStart [] [] [] s"

section \<open>The database behind Prisma\<close>

text \<open>
  The migration creates two tables, \<open>Product\<close> and \<open>ExportJob\<close>. The status column is
  text; the code writes only the four values below. The \<open>filters\<close> column holds
  \<open>JSON.stringify(filters)\<close> of an object with three string fields and is read back with
  \<open>JSON.parse\<close>, which returns an equal object: the model stores the object. The
  timestamps \<open>createdAt\<close> and \<open>updatedAt\<close> are set by the database and read by no
  decision of the code; they are left out. The primary key of an export job is the key of
  the map. The INTEGER columns are integers; the handlers hold them in JavaScript numbers,
  which are exact far beyond any row count or id a table reaches.
\<close>

datatype job_status = PENDING | PROCESSING | DONE | FAILED

record filters =
  f_category :: string
  f_status :: string
  f_search :: string

record ExportJob =
  j_filters :: filters
  j_status :: job_status
  j_totalRows :: int
  j_lastCursor :: int
  j_rowsExported :: int

record ('p, 'd) database =
  product_table :: "('p, 'd) ProductRow list"
  exportJob_table :: "string \<rightharpoonup> ExportJob"

text \<open>
  The \<open>where\<close> object the two handlers build: each of the three keys is present or not.
\<close>

record where_clause =
  w_category :: "string option"
  w_status :: "string option"
  w_name_contains :: "string option"

text \<open>The \<open>data\<close> object of \<open>prisma.exportJob.update\<close>: the columns to overwrite.\<close>

record job_data =
  d_lastCursor :: "int option"
  d_rowsExported :: "int option"
  d_status :: "job_status option"

datatype db_error = RecordNotFound | UniqueConstraint

definition row_matches ::
  "('p, 'd) platform \<Rightarrow> where_clause \<Rightarrow> ('p, 'd) ProductRow \<Rightarrow> bool" where
  "row_matches pf w r =
     ((case w_category w of None \<Rightarrow> True | Some c \<Rightarrow> p_category r = c) \<and>
      (case w_status w of None \<Rightarrow> True | Some s \<Rightarrow> p_status r = s) \<and>
      (case w_name_contains w of None \<Rightarrow> True | Some s \<Rightarrow> name_contains pf (p_name r) s))"

text \<open>\<open>prisma.product.count({ where })\<close>.\<close>

definition prisma_product_count ::
  "('p, 'd) platform \<Rightarrow> ('p, 'd) database \<Rightarrow> where_clause \<Rightarrow> int" where
  "prisma_product_count pf db w = int (length (filter (row_matches pf w) (product_table db)))"

text \<open>
  \<open>prisma.product.findMany({ where: { ...where, id: { gt } }, orderBy: { id: "asc" }, take })\<close>.
\<close>

definition prisma_product_findMany ::
  "('p, 'd) platform \<Rightarrow> ('p, 'd) database \<Rightarrow> where_clause \<Rightarrow> int \<Rightarrow> nat
     \<Rightarrow> ('p, 'd) ProductRow list" where
  "prisma_product_findMany pf db w gt n =
     take n (sort_key p_id (filter (\<lambda>r. row_matches pf w r \<and> gt < p_id r) (product_table db)))"

text \<open>\<open>prisma.exportJob.findUnique({ where: { id } })\<close>: the row, or null.\<close>

definition prisma_exportJob_findUnique :: "('p, 'd) database \<Rightarrow> string \<Rightarrow> ExportJob option" where
  "prisma_exportJob_findUnique db jobId = exportJob_table db jobId"

definition apply_data :: "ExportJob \<Rightarrow> job_data \<Rightarrow> ExportJob" where
  "apply_data job d =
     job\<lparr>j_lastCursor := (case d_lastCursor d of None \<Rightarrow> j_lastCursor job | Some c \<Rightarrow> c),
         j_rowsExported := (case d_rowsExported d of None \<Rightarrow> j_rowsExported job | Some n \<Rightarrow> n),
         j_status := (case d_status d of None \<Rightarrow> j_status job | Some s \<Rightarrow> s)\<rparr>"

text \<open>
  \<open>prisma.exportJob.update({ where: { id }, data })\<close>: throws when no row has the id;
  otherwise overwrites the given columns and returns the updated row.
\<close>

definition prisma_exportJob_update ::
  "('p, 'd) database \<Rightarrow> string \<Rightarrow> job_data \<Rightarrow> db_error + (('p, 'd) database \<times> ExportJob)" where
  "prisma_exportJob_update db jobId d =
     (case exportJob_table db jobId of
        None \<Rightarrow> Inl RecordNotFound
      | Some job \<Rightarrow>
          Inr (db\<lparr>exportJob_table := (exportJob_table db)(jobId \<mapsto> apply_data job d)\<rparr>, apply_data job d))"

text \<open>
  \<open>prisma.exportJob.create({ data })\<close>. The id is generated by the store; the model takes
  it as an argument, and a taken id is the store's unique-constraint failure.
\<close>

definition prisma_exportJob_create ::
  "('p, 'd) database \<Rightarrow> string \<Rightarrow> ExportJob \<Rightarrow> db_error + ('p, 'd) database" where
  "prisma_exportJob_create db newId job =
     (case exportJob_table db newId of
        Some _ \<Rightarrow> Inl UniqueConstraint
      | None \<Rightarrow> Inr (db\<lparr>exportJob_table := (exportJob_table db)(newId \<mapsto> job)\<rparr>))"

section \<open>src/app/api/export/route.ts: job creation\<close>

text \<open>
  The JSON body of the request: each of the three fields is a string, or absent (or null),
  which \<open>??\<close> replaces by the empty string.
\<close>

record request_body =
  b_category :: "string option"
  b_status :: "string option"
  b_search :: "string option"

definition POST_filters :: "request_body \<Rightarrow> filters" where
  "POST_filters body =
     \<lparr>f_category = (case b_category body of None \<Rightarrow> [] | Some s \<Rightarrow> s),
      f_status = (case b_status body of None \<Rightarrow> [] | Some s \<Rightarrow> s),
      f_search = (case b_search body of None \<Rightarrow> [] | Some s \<Rightarrow> s)\<rparr>"

text \<open>Lines 13 to 16: a key is set when the filter string is truthy, that is, not empty.\<close>

definition POST_where :: "filters \<Rightarrow> where_clause" where
  "POST_where filters =
     \<lparr>w_category = (if f_category filters \<noteq> [] then Some (f_category filters) else None),
      w_status = (if f_status filters \<noteq> [] then Some (f_status filters) else None),
      w_name_contains = (if f_search filters \<noteq> [] then Some (f_search filters) else None)\<rparr>"

record post_response =
  r_jobId :: string
  r_totalRows :: int

definition POST ::
  "('p, 'd) platform \<Rightarrow> ('p, 'd) database \<Rightarrow> string \<Rightarrow> request_body
     \<Rightarrow> db_error + (('p, 'd) database \<times> post_response)" where
  "POST pf db newId body =
     (let filters = POST_filters body;
          whr = POST_where filters;
          totalRows = prisma_product_count pf db whr
      in case prisma_exportJob_create db newId
                \<lparr>j_filters = filters, j_status = PENDING, j_totalRows = totalRows,
                 j_lastCursor = 0, j_rowsExported = 0\<rparr> of
           Inl e \<Rightarrow> Inl e
         | Inr db' \<Rightarrow> Inr (db', \<lparr>r_jobId = newId, r_totalRows = totalRows\<rparr>))"

section \<open>The export stream: GET /api/export/[jobId]/stream\<close>

definition CHUNK_SIZE :: nat where
  "CHUNK_SIZE = 1000"

text \<open>
  What the handler enqueues on the stream: \<open>send\<close> writes an unnamed message (the header
  and the CSV chunks), \<open>sendEvent\<close> a named event with its payload. The byte framing of
  server-sent events is the transport's. An error event carries either the fixed text of the
  handler or the text of what was thrown.
\<close>

datatype sse =
    Message string
  | Progress int int
  | DoneEvent int
  | ErrorMessage string
  | ErrorThrown db_error

text \<open>
  The handler's state: the database, what has been enqueued, whether the stream was closed,
  and a record of every database call in order with what it returned, kept so that
  properties of fetches and writes can be stated.
\<close>

record find_args =
  fa_where :: where_clause
  fa_id_gt :: int
  fa_take :: nat

datatype ('p, 'd) db_call =
    FindUnique string "ExportJob option"
  | Update string job_data "db_error + ExportJob"
  | FindMany find_args "('p, 'd) ProductRow list"

record ('p, 'd) stream =
  db :: "('p, 'd) database"
  enqueued :: "sse list"
  calls :: "('p, 'd) db_call list"
  closed :: bool

definition open_stream :: "('p, 'd) database \<Rightarrow> ('p, 'd) stream" where
  "open_stream d = \<lparr>db = d, enqueued = [], calls = [], closed = False\<rparr>"

definition send :: "('p, 'd) stream \<Rightarrow> sse \<Rightarrow> ('p, 'd) stream" where
  "send st ev = st\<lparr>enqueued := enqueued st @ [ev]\<rparr>"

definition close :: "('p, 'd) stream \<Rightarrow> ('p, 'd) stream" where
  "close st = st\<lparr>closed := True\<rparr>"

definition find_job :: "('p, 'd) stream \<Rightarrow> string \<Rightarrow> ('p, 'd) stream \<times> ExportJob option" where
  "find_job st jobId =
     (let job = prisma_exportJob_findUnique (db st) jobId
      in (st\<lparr>calls := calls st @ [FindUnique jobId job]\<rparr>, job))"

text \<open>An awaited update: the new state, and the error if the call threw.\<close>

definition update_job ::
  "('p, 'd) stream \<Rightarrow> string \<Rightarrow> job_data \<Rightarrow> ('p, 'd) stream \<times> db_error option" where
  "update_job st jobId d =
     (case prisma_exportJob_update (db st) jobId d of
        Inl e \<Rightarrow> (st\<lparr>calls := calls st @ [Update jobId d (Inl e)]\<rparr>, Some e)
      | Inr (db', job') \<Rightarrow>
          (st\<lparr>db := db', calls := calls st @ [Update jobId d (Inr job')]\<rparr>, None))"

text \<open>Lines 58 to 62: the chunk query.\<close>

definition fetch_chunk ::
  "('p, 'd) platform \<Rightarrow> where_clause \<Rightarrow> ('p, 'd) stream \<Rightarrow> int
     \<Rightarrow> ('p, 'd) stream \<times> ('p, 'd) ProductRow list" where
  "fetch_chunk pf whr st cursor =
     (let products = prisma_product_findMany pf (db st) whr cursor CHUNK_SIZE
      in (st\<lparr>calls := calls st @
                [FindMany \<lparr>fa_where = whr, fa_id_gt = cursor, fa_take = CHUNK_SIZE\<rparr> products]\<rparr>,
          products))"

text \<open>Lines 75 to 79: the columns of the progress write.\<close>

definition progress_data :: "int \<Rightarrow> int \<Rightarrow> job_data" where
  "progress_data cursor rowsExported =
     \<lparr>d_lastCursor = Some cursor, d_rowsExported = Some rowsExported, d_status = Some PROCESSING\<rparr>"

text \<open>The writes of lines 37, 91 and 100 set the status only.\<close>

definition status_data :: "job_status \<Rightarrow> job_data" where
  "status_data s = \<lparr>d_lastCursor = None, d_rowsExported = None, d_status = Some s\<rparr>"

text \<open>Lines 46 to 49, on the filters parsed from the job.\<close>

definition GET_where :: "filters \<Rightarrow> where_clause" where
  "GET_where filters =
     \<lparr>w_category = (if f_category filters \<noteq> [] then Some (f_category filters) else None),
      w_status = (if f_status filters \<noteq> [] then Some (f_status filters) else None),
      w_name_contains = (if f_search filters \<noteq> [] then Some (f_search filters) else None)\<rparr>"

text \<open>
  One pass through the body of \<open>while (true)\<close>, lines 58 to 85: the loop is left by
  \<open>break\<close>, by an exception, or goes round again with the new \<open>cursor\<close> and
  \<open>rowsExported\<close>. The pause of 50 ms between chunks changes no state.
\<close>

datatype ('p, 'd) iteration =
    Break "('p, 'd) stream"
  | Threw "('p, 'd) stream" db_error
  | Continue "('p, 'd) stream" int int

definition export_chunk ::
  "('p, 'd) platform \<Rightarrow> string \<Rightarrow> where_clause \<Rightarrow> int \<Rightarrow> ('p, 'd) stream \<Rightarrow> int \<Rightarrow> int
     \<Rightarrow> ('p, 'd) iteration" where
  "export_chunk pf jobId whr totalRows st cursor rowsExported =
     (let (st1, products) = fetch_chunk pf whr st cursor in
        if length products = 0 then Break st1
        else
          (let csvChunk = concat (map (rowToCsvLine pf) products);
               st2 = send st1 (Message csvChunk);
               cursor' = p_id (last products);
               rowsExported' = rowsExported + int (length products);
               (st3, thrown) = update_job st2 jobId (progress_data cursor' rowsExported')
           in (case thrown of
                 Some e \<Rightarrow> Threw st3 e
               | None \<Rightarrow>
                   Continue (send st3 (Progress rowsExported' totalRows)) cursor' rowsExported')))"

subsection \<open>The loop ends\<close>

text \<open>
  Every round that goes on moves the cursor to the id of a row of the table beyond the old
  cursor, so the number of rows beyond the cursor falls.
\<close>

lemma findMany_subset:
  "set (prisma_product_findMany pf d w c n)
     \<subseteq> {r \<in> set (product_table d). row_matches pf w r \<and> c < p_id r}"
proof -
  have "set (prisma_product_findMany pf d w c n)
          \<subseteq> set (sort_key p_id (filter (\<lambda>r. row_matches pf w r \<and> c < p_id r) (product_table d)))"
    unfolding prisma_product_findMany_def by (rule set_take_subset)
  then show ?thesis by auto
qed

lemma findMany_last:
  assumes "prisma_product_findMany pf d w c n \<noteq> []"
  shows "last (prisma_product_findMany pf d w c n) \<in> set (product_table d)"
    and "c < p_id (last (prisma_product_findMany pf d w c n))"
  using last_in_set [OF assms] findMany_subset [of pf d w c n] by auto

lemma rows_after_shrink:
  assumes "x \<in> set tbl" "c < p_id x"
  shows "length (filter (\<lambda>r. p_id x < p_id r) tbl) < length (filter (\<lambda>r. c < p_id r) tbl)"
proof -
  let ?ys = "filter (\<lambda>r. c < p_id r) tbl"
  have "filter (\<lambda>r. p_id x < p_id r) ?ys = filter (\<lambda>r. p_id x < p_id r) tbl"
    using assms(2) by (auto intro: filter_cong)
  moreover have "x \<in> set ?ys" using assms by simp
  then have "length (filter (\<lambda>r. p_id x < p_id r) ?ys) < length ?ys"
    by (rule length_filter_less) simp
  ultimately show ?thesis by simp
qed

lemma export_chunk_Continue:
  assumes "export_chunk pf jobId whr totalRows st cursor rowsExported =
             Continue st' cursor' rowsExported'"
  shows "prisma_product_findMany pf (db st) whr cursor CHUNK_SIZE \<noteq> []"
    and "cursor' = p_id (last (prisma_product_findMany pf (db st) whr cursor CHUNK_SIZE))"
    and "rowsExported' =
           rowsExported + int (length (prisma_product_findMany pf (db st) whr cursor CHUNK_SIZE))"
    and "product_table (db st') = product_table (db st)"
  using assms
  by (auto simp: export_chunk_def fetch_chunk_def Let_def send_def update_job_def
      prisma_exportJob_update_def split: if_splits option.splits prod.splits sum.splits)

lemma export_chunk_decreases:
  assumes "export_chunk pf jobId whr totalRows st cursor rowsExported =
             Continue st' cursor' rowsExported'"
  shows "length (filter (\<lambda>r. cursor' < p_id r) (product_table (db st')))
           < length (filter (\<lambda>r. cursor < p_id r) (product_table (db st)))"
proof -
  note c = export_chunk_Continue [OF assms]
  have "length (filter (\<lambda>r. p_id (last (prisma_product_findMany pf (db st) whr cursor CHUNK_SIZE))
                              < p_id r) (product_table (db st)))
          < length (filter (\<lambda>r. cursor < p_id r) (product_table (db st)))"
    using findMany_last [OF c(1)] by (rule rows_after_shrink)
  then show ?thesis using c(2,4) by simp
qed

text \<open>Lines 57 to 86: the loop, with the value of \<open>rowsExported\<close> it ends with.\<close>

function export_loop ::
  "('p, 'd) platform \<Rightarrow> string \<Rightarrow> where_clause \<Rightarrow> int \<Rightarrow> ('p, 'd) stream \<Rightarrow> int \<Rightarrow> int
     \<Rightarrow> ('p, 'd) stream \<times> (db_error + int)" where
  "export_loop pf jobId whr totalRows st cursor rowsExported =
     (case export_chunk pf jobId whr totalRows st cursor rowsExported of
        Break st' \<Rightarrow> (st', Inr rowsExported)
      | Threw st' e \<Rightarrow> (st', Inl e)
      | Continue st' cursor' rowsExported' \<Rightarrow>
          export_loop pf jobId whr totalRows st' cursor' rowsExported')"
  by pat_completeness auto
termination
  by (relation "measure (\<lambda>(pf, jobId, whr, totalRows, st, cursor, rowsExported).
                  length (filter (\<lambda>r. cursor < p_id r) (product_table (db st))))")
     (simp_all add: export_chunk_decreases)

declare export_loop.simps [simp del]

text \<open>
  Lines 26 to 94, the body of \<open>try\<close>: the state it ends in, and the error if it threw.
  When the job is not found the handler reports it, closes the stream and returns.
\<close>

definition GET_try ::
  "('p, 'd) platform \<Rightarrow> ('p, 'd) stream \<Rightarrow> string \<Rightarrow> ('p, 'd) stream \<times> db_error option" where
  "GET_try pf st jobId =
     (let (st0, found) = find_job st jobId in
        case found of
          None \<Rightarrow> (close (send st0 (ErrorMessage ''Job not found'')), None)
        | Some job \<Rightarrow>
            (let (st1, thrown) = update_job st0 jobId (status_data PROCESSING) in
               case thrown of
                 Some e \<Rightarrow> (st1, Some e)
               | None \<Rightarrow>
                   (let filters = j_filters job;
                        whr = GET_where filters;
                        cursor = j_lastCursor job;
                        rowsExported = j_rowsExported job;
                        st2 = send st1 (Message CSV_HEADER)
                    in (case export_loop pf jobId whr (j_totalRows job) st2 cursor rowsExported of
                          (st3, Inl e) \<Rightarrow> (st3, Some e)
                        | (st3, Inr rowsExported') \<Rightarrow>
                            (let (st4, thrown') = update_job st3 jobId (status_data DONE) in
                               case thrown' of
                                 Some e \<Rightarrow> (st4, Some e)
                               | None \<Rightarrow> (send st4 (DoneEvent rowsExported'), None))))))"

text \<open>
  The handler: \<open>catch\<close> marks the job FAILED, ignoring a failure of that write, and
  reports the error; \<open>finally\<close> closes the stream (also when the body has closed it
  already, on a job that was not found).
\<close>

definition GET :: "('p, 'd) platform \<Rightarrow> ('p, 'd) database \<Rightarrow> string \<Rightarrow> ('p, 'd) stream" where
  "GET pf d jobId =
     (case GET_try pf (open_stream d) jobId of
        (st, None) \<Rightarrow> close st
      | (st, Some e) \<Rightarrow>
          (let (st', _) = update_job st jobId (status_data FAILED)
           in close (send st' (ErrorThrown e))))"

subsection \<open>Reading the record of database calls\<close>

text \<open>The chunk queries of a run, each with the rows it returned.\<close>

fun fetches :: "('p, 'd) db_call list \<Rightarrow> (find_args \<times> ('p, 'd) ProductRow list) list" where
  "fetches [] = []"
| "fetches (FindMany a rows # cs) = (a, rows) # fetches cs"
| "fetches (FindUnique jobId found # cs) = fetches cs"
| "fetches (Update jobId d res # cs) = fetches cs"

text \<open>The job row as it stood in the store after each write of a run.\<close>

fun persisted :: "('p, 'd) db_call list \<Rightarrow> ExportJob list" where
  "persisted [] = []"
| "persisted (Update jobId d (Inr job) # cs) = job # persisted cs"
| "persisted (Update jobId d (Inl e) # cs) = persisted cs"
| "persisted (FindUnique jobId found # cs) = persisted cs"
| "persisted (FindMany a rows # cs) = persisted cs"

text \<open>
  The state in which the handler enters the loop when it has found \<open>job\<close>: the job is
  marked PROCESSING and the header has been sent.
\<close>

definition loop_entry :: "('p, 'd) database \<Rightarrow> string \<Rightarrow> ExportJob \<Rightarrow> ('p, 'd) stream" where
  "loop_entry d jobId job =
     \<lparr>db = d\<lparr>exportJob_table := (exportJob_table d)(jobId \<mapsto> job\<lparr>j_status := PROCESSING\<rparr>)\<rparr>,
      enqueued = [Message CSV_HEADER],
      calls = [FindUnique jobId (Some job),
               Update jobId (status_data PROCESSING) (Inr (job\<lparr>j_status := PROCESSING\<rparr>))],
      closed = False\<rparr>"

text \<open>
  What a chunk query must look like when the cursor is \<open>cursor\<close>: it asks, under the
  filter predicate, for the rows with an id beyond the cursor, at most \<open>CHUNK_SIZE\<close> of
  them, and the rows it returned are beyond the cursor and ascending by id.
\<close>

definition fetch_ok ::
  "where_clause \<Rightarrow> int \<Rightarrow> find_args \<Rightarrow> ('p, 'd) ProductRow list \<Rightarrow> bool" where
  "fetch_ok whr cursor a rows =
     (fa_where a = whr \<and> fa_id_gt a = cursor \<and> fa_take a = CHUNK_SIZE \<and>
      length rows \<le> CHUNK_SIZE \<and> list_all (\<lambda>r. cursor < p_id r) rows \<and>
      sorted (map p_id rows))"

text \<open>
  Every chunk query of a record of calls is made with the cursor that is in the store at
  that moment: \<open>c\<close> at first, and after a write the cursor that write left.
\<close>

fun fetches_follow_cursor :: "where_clause \<Rightarrow> int \<Rightarrow> ('p, 'd) db_call list \<Rightarrow> bool" where
  "fetches_follow_cursor whr c [] = True"
| "fetches_follow_cursor whr c (FindMany a rows # cs) =
     (fetch_ok whr c a rows \<and> fetches_follow_cursor whr c cs)"
| "fetches_follow_cursor whr c (Update jobId d (Inr job) # cs) =
     fetches_follow_cursor whr (j_lastCursor job) cs"
| "fetches_follow_cursor whr c (Update jobId d (Inl e) # cs) = fetches_follow_cursor whr c cs"
| "fetches_follow_cursor whr c (FindUnique jobId found # cs) = fetches_follow_cursor whr c cs"

text \<open>The cursor in the store after a record of calls, when it was \<open>c\<close> before.\<close>

fun cursor_after :: "int \<Rightarrow> ('p, 'd) db_call list \<Rightarrow> int" where
  "cursor_after c [] = c"
| "cursor_after c (Update jobId d (Inr job) # cs) = cursor_after (j_lastCursor job) cs"
| "cursor_after c (Update jobId d (Inl e) # cs) = cursor_after c cs"
| "cursor_after c (FindUnique jobId found # cs) = cursor_after c cs"
| "cursor_after c (FindMany a rows # cs) = cursor_after c cs"

text \<open>
  The sizes of the chunk queries of a run that starts with \<open>n\<close> rows still to export:
  chunks of \<open>CHUNK_SIZE\<close> rows while rows are left, the last one shorter when \<open>n\<close> is
  not a multiple, and the empty query on which the loop breaks.
\<close>

function chunk_lengths :: "nat \<Rightarrow> nat list" where
  "chunk_lengths n = (if n = 0 then [0] else min n CHUNK_SIZE # chunk_lengths (n - CHUNK_SIZE))"
  by pat_completeness auto
termination
  by (relation "measure id") (simp_all add: CHUNK_SIZE_def)

declare chunk_lengths.simps [simp del]

text \<open>The cursors written by the successful updates of a record of calls.\<close>

fun cursor_writes :: "('p, 'd) db_call list \<Rightarrow> int list" where
  "cursor_writes [] = []"
| "cursor_writes (Update jobId d (Inr job) # cs) =
     (case d_lastCursor d of None \<Rightarrow> cursor_writes cs | Some c \<Rightarrow> c # cursor_writes cs)"
| "cursor_writes (Update jobId d (Inl e) # cs) = cursor_writes cs"
| "cursor_writes (FindUnique jobId found # cs) = cursor_writes cs"
| "cursor_writes (FindMany a rows # cs) = cursor_writes cs"

text \<open>The rows a run has still to export when its cursor is \<open>c\<close>, in the order of the scan.\<close>

definition remaining ::
  "('p, 'd) platform \<Rightarrow> ('p, 'd) database \<Rightarrow> where_clause \<Rightarrow> int \<Rightarrow> ('p, 'd) ProductRow list" where
  "remaining pf d whr c =
     sort_key p_id (filter (\<lambda>r. row_matches pf whr r \<and> c < p_id r) (product_table d))"

section \<open>The two-pass scenario of the specification\<close>

text \<open>
  Modelled from the spec: the simulated crash after chunk 1 of the resume property. The
  specification compares a run to completion with a run that is cut off after the first
  chunk and then resumed; the repository has no such harness. This is the first pass of that
  scenario, put together from the handler's own steps: the handler runs as \<open>GET\<close> does up to the end of the first pass
  through the loop body, where the progress of chunk 1 has been persisted, and the process
  stops there. (When the first query finds no rows there is no chunk 1, and it stops after
  that query.) What is left is the database.
\<close>

definition db_after_first_chunk ::
  "('p, 'd) platform \<Rightarrow> ('p, 'd) database \<Rightarrow> string \<Rightarrow> ('p, 'd) database" where
  "db_after_first_chunk pf d jobId =
     (let (st0, found) = find_job (open_stream d) jobId in
        case found of
          None \<Rightarrow> db st0
        | Some job \<Rightarrow>
            (let (st1, thrown) = update_job st0 jobId (status_data PROCESSING) in
               case thrown of
                 Some e \<Rightarrow> db st1
               | None \<Rightarrow>
                   (case export_chunk pf jobId (GET_where (j_filters job)) (j_totalRows job)
                           (send st1 (Message CSV_HEADER)) (j_lastCursor job) (j_rowsExported job) of
                      Break st' \<Rightarrow> db st'
                    | Threw st' e \<Rightarrow> db st'
                    | Continue st' cursor' rowsExported' \<Rightarrow> db st')))"

section \<open>Sample data for evaluation\<close>

text \<open>
  A concrete platform on which the definitions can be run: prices are whole cents, printed
  with two decimals; dates are kept as their ISO text; \<open>contains\<close> is substring search.
\<close>

definition cents_toFixed2 :: "nat \<Rightarrow> string" where
  "cents_toFixed2 c =
     digits (c div 100) @ ''.'' @ [''0123456789'' ! (c div 10 mod 10), ''0123456789'' ! (c mod 10)]"

primrec contains_text :: "string \<Rightarrow> string \<Rightarrow> bool" where
  "contains_text [] s = (s = [])"
| "contains_text (c # cs) s = (take (length s) (c # cs) = s \<or> contains_text cs s)"

definition iso_text :: "string \<Rightarrow> string" where
  "iso_text s = s"

definition sample_platform :: "(nat, string) platform" where
  "sample_platform =
     \<lparr>name_contains = contains_text, toFixed2 = cents_toFixed2, toISOString = iso_text\<rparr>"

definition quoted_name :: string where
  "quoted_name = ''Ultra, '' @ [dquote] @ ''Pro'' @ [dquote] @ '' Widget''"

definition quoted_name_encoded :: string where
  "quoted_name_encoded =
     [dquote] @ ''Ultra, '' @ [dquote, dquote] @ ''Pro'' @ [dquote, dquote] @ '' Widget'' @ [dquote]"

definition sample_row_a :: "(nat, string) ProductRow" where
  "sample_row_a =
     \<lparr>p_id = 4, p_name = quoted_name, p_category = ''Toys'', p_price = 1999,
      p_quantity = 12, p_status = ''active'', p_createdAt = ''2024-01-05T10:00:00.000Z''\<rparr>"

definition sample_row_b :: "(nat, string) ProductRow" where
  "sample_row_b =
     \<lparr>p_id = 5, p_name = ''Mega Gadget 5'', p_category = ''Home'', p_price = 250,
      p_quantity = 0, p_status = ''inactive'', p_createdAt = ''2024-01-06T10:00:00.000Z''\<rparr>"

definition sample_row :: "nat \<Rightarrow> (nat, string) ProductRow" where
  "sample_row i =
     \<lparr>p_id = int i, p_name = ''Ultra Widget'', p_category = ''Toys'', p_price = 1999,
      p_quantity = 3, p_status = ''active'', p_createdAt = ''2024-01-05T10:00:00.000Z''\<rparr>"

definition no_filters :: filters where
  "no_filters = \<lparr>f_category = [], f_status = [], f_search = []\<rparr>"

definition sample_table :: "(nat, string) ProductRow list" where
  "sample_table = [sample_row 2, sample_row 1, sample_row 3]"

text \<open>A job that failed after its first row was exported, to be resumed.\<close>

definition resumed_job :: ExportJob where
  "resumed_job =
     \<lparr>j_filters = no_filters, j_status = FAILED, j_totalRows = 3, j_lastCursor = 1,
      j_rowsExported = 1\<rparr>"

definition resumed_db :: "(nat, string) database" where
  "resumed_db = \<lparr>product_table = sample_table, exportJob_table = [''job-1'' \<mapsto> resumed_job]\<rparr>"

definition empty_body :: request_body where
  "empty_body = \<lparr>b_category = None, b_status = None, b_search = None\<rparr>"

definition toys_body :: request_body where
  "toys_body = \<lparr>b_category = Some ''Toys'', b_status = Some [], b_search = None\<rparr>"

text \<open>The job above after a progress write with cursor 0 and count 0.\<close>

definition rewound_job :: ExportJob where
  "rewound_job = resumed_job\<lparr>j_lastCursor := 0, j_rowsExported := 0, j_status := PROCESSING\<rparr>"

text \<open>A finished job, and a job whose category filter matches no row of the table.\<close>

definition done_job :: ExportJob where
  "done_job =
     \<lparr>j_filters = no_filters, j_status = DONE, j_totalRows = 3, j_lastCursor = 3,
      j_rowsExported = 3\<rparr>"

definition done_db :: "(nat, string) database" where
  "done_db = \<lparr>product_table = sample_table, exportJob_table = [''job-1'' \<mapsto> done_job]\<rparr>"

definition books_job :: ExportJob where
  "books_job =
     \<lparr>j_filters = \<lparr>f_category = ''Books'', f_status = [], f_search = []\<rparr>, j_status = PENDING,
      j_totalRows = 0, j_lastCursor = 0, j_rowsExported = 0\<rparr>"

definition books_db :: "(nat, string) database" where
  "books_db = \<lparr>product_table = sample_table, exportJob_table = [''job-1'' \<mapsto> books_job]\<rparr>"

text \<open>A table of \<open>n\<close> rows with the ids 1 to \<open>n\<close>, and a fresh job without filters on it.\<close>

definition numbered_table :: "nat \<Rightarrow> (nat, string) ProductRow list" where
  "numbered_table n = map sample_row [1..<Suc n]"

definition fresh_job :: "nat \<Rightarrow> ExportJob" where
  "fresh_job n =
     \<lparr>j_filters = no_filters, j_status = PENDING, j_totalRows = int n, j_lastCursor = 0,
      j_rowsExported = 0\<rparr>"

definition numbered_db :: "nat \<Rightarrow> (nat, string) database" where
  "numbered_db n =
     \<lparr>product_table = numbered_table n, exportJob_table = [''job-1'' \<mapsto> fresh_job n]\<rparr>"

section \<open>Properties of the CSV encoding\<close>

lemma special_distinct: "comma \<noteq> dquote" "comma \<noteq> newline" "dquote \<noteq> newline"
  by (simp_all add: comma_def dquote_def newline_def)

lemma escapeCsv_plain: "plain v \<Longrightarrow> escapeCsv v = v"
  by (simp add: escapeCsv_def plain_def)

lemma escapeCsv_rfc4180: "escapeCsv v = rfc4180_field v"
proof -
  have "(\<lambda>c. if c = dquote then [dquote, dquote] else [c]) = (\<lambda>c. if c = dquote then [c, c] else [c])"
    by auto
  then show ?thesis
    by (simp add: escapeCsv_def rfc4180_field_def plain_def replace_quotes_def)
qed

lemma plain_append: "plain (xs @ ys) = (plain xs \<and> plain ys)"
  by (auto simp: plain_def)

lemma digit_plain: "n < 10 \<Longrightarrow> plain [''0123456789'' ! n]"
proof -
  assume "n < 10"
  then have "''0123456789'' ! n \<in> set ''0123456789''" by (intro nth_mem) simp
  then show ?thesis by (auto simp: plain_def comma_def dquote_def newline_def)
qed

lemma digits_plain: "plain (digits n)"
proof (induction n rule: digits.induct)
  case (1 n)
  show ?case
  proof (cases "n < 10")
    case True
    then show ?thesis by (subst digits.simps) (simp add: digit_plain)
  next
    case False
    then have "plain (digits (n div 10))" by (rule "1.IH")
    moreover have "plain [''0123456789'' ! (n mod 10)]" by (rule digit_plain) simp
    ultimately show ?thesis using False by (subst digits.simps) (simp add: plain_append)
  qed
qed

lemma number_to_string_plain: "plain (number_to_string i)"
  using digits_plain [of "nat (- i)"] digits_plain [of "nat i"]
  by (auto simp: number_to_string_def plain_def comma_def dquote_def newline_def)

lemma rowToCsvLine_as_escaped:
  assumes "plain (toFixed2 pf (p_price product))" "plain (toISOString pf (p_createdAt product))"
  shows "rowToCsvLine pf product = join [comma] (map escapeCsv (row_fields pf product)) @ [newline]"
  using assms by (simp add: rowToCsvLine_def row_fields_def escapeCsv_plain number_to_string_plain)

subsection \<open>Reading back what the encoder wrote\<close>

lemma go_quoted_body:
  "parseCsv_go InQuoted f r rs (replace_quotes v @ dquote # rest) =
   parseCsv_go QuoteSeen (f @ v) r rs rest"
proof (induction v arbitrary: f)
  case Nil
  show ?case by (simp add: replace_quotes_def)
next
  case (Cons c v)
  have step: "parseCsv_go InQuoted f r rs (replace_quotes (c # v) @ dquote # rest) =
              parseCsv_go InQuoted (f @ [c]) r rs (replace_quotes v @ dquote # rest)"
    by (simp add: replace_quotes_def)
  show ?case unfolding step Cons.IH by simp
qed

lemma go_unquoted_body:
  "plain v \<Longrightarrow> parseCsv_go InUnquoted f r rs (v @ rest) = parseCsv_go InUnquoted (f @ v) r rs rest"
  by (induction v arbitrary: f) (auto simp: plain_def)

lemma go_plain_field:
  assumes "plain v"
  shows "parseCsv_go FieldStart [] r rs (v @ rest) =
         (if v = [] then parseCsv_go FieldStart [] r rs rest
          else parseCsv_go InUnquoted v r rs rest)"
proof (cases v)
  case Nil
  then show ?thesis by simp
next
  case (Cons c cs)
  from assms Cons have c: "c \<noteq> dquote" "c \<noteq> comma" "c \<noteq> newline" and cs: "plain cs"
    by (auto simp: plain_def)
  show ?thesis using c go_unquoted_body [OF cs, of "[c]" r rs rest] by (simp add: Cons)
qed

lemma go_field_comma:
  "parseCsv_go FieldStart [] r rs (escapeCsv v @ comma # rest) =
   parseCsv_go FieldStart [] (r @ [v]) rs rest"
proof (cases "plain v")
  case True
  then have "escapeCsv v = v" by (rule escapeCsv_plain)
  then show ?thesis using go_plain_field [OF True, of r rs "comma # rest"]
    by (simp add: special_distinct)
next
  case False
  then have "escapeCsv v = dquote # replace_quotes v @ [dquote]"
    by (auto simp: escapeCsv_def plain_def)
  then show ?thesis using go_quoted_body [of "[]" r rs v "comma # rest"]
    by (simp add: special_distinct)
qed

lemma go_field_newline:
  "parseCsv_go FieldStart [] r rs (escapeCsv v @ newline # rest) =
   parseCsv_go FieldStart [] [] (rs @ [r @ [v]]) rest"
proof (cases "plain v")
  case True
  then have "escapeCsv v = v" by (rule escapeCsv_plain)
  then show ?thesis using go_plain_field [OF True, of r rs "newline # rest"]
    by (simp add: special_distinct special_distinct [symmetric])
next
  case False
  then have "escapeCsv v = dquote # replace_quotes v @ [dquote]"
    by (auto simp: escapeCsv_def plain_def)
  then show ?thesis using go_quoted_body [of "[]" r rs v "newline # rest"]
    by (simp add: special_distinct special_distinct [symmetric])
qed

lemma go_record:
  "parseCsv_go FieldStart [] [] rs
     (join [comma] (map escapeCsv [a, b, c, d, e, f, g]) @ newline # rest) =
   parseCsv_go FieldStart [] [] (rs @ [[a, b, c, d, e, f, g]]) rest"
  by (simp add: go_field_comma go_field_newline)

lemma header_parse:
  "parseCsv_go FieldStart [] [] [] (CSV_HEADER @ rest) =
   parseCsv_go FieldStart [] [] [header_fields] rest"
  by (simp add: CSV_HEADER_def header_fields_def comma_def dquote_def newline_def)

lemma parse_header_and_two_rows:
  assumes "plain (toFixed2 pf (p_price r1))" "plain (toISOString pf (p_createdAt r1))"
      and "plain (toFixed2 pf (p_price r2))" "plain (toISOString pf (p_createdAt r2))"
  shows "parseCsv (CSV_HEADER @ rowToCsvLine pf r1 @ rowToCsvLine pf r2) =
         [header_fields, row_fields pf r1, row_fields pf r2]"
proof -
  let ?f1 = "row_fields pf r1" and ?f2 = "row_fields pf r2"
  have l1: "rowToCsvLine pf r1 = join [comma] (map escapeCsv ?f1) @ [newline]"
    using assms(1,2) by (rule rowToCsvLine_as_escaped)
  have l2: "rowToCsvLine pf r2 = join [comma] (map escapeCsv ?f2) @ [newline]"
    using assms(3,4) by (rule rowToCsvLine_as_escaped)
  have s1: "parseCsv_go FieldStart [] [] rs (join [comma] (map escapeCsv ?f1) @ newline # rest) =
            parseCsv_go FieldStart [] [] (rs @ [?f1]) rest" for rs rest
    unfolding row_fields_def by (rule go_record)
  have s2: "parseCsv_go FieldStart [] [] rs (join [comma] (map escapeCsv ?f2) @ newline # rest) =
            parseCsv_go FieldStart [] [] (rs @ [?f2]) rest" for rs rest
    unfolding row_fields_def by (rule go_record)
  have "parseCsv (CSV_HEADER @ rowToCsvLine pf r1 @ rowToCsvLine pf r2) =
        parseCsv_go FieldStart [] [] [header_fields]
          (join [comma] (map escapeCsv ?f1) @ newline #
             (join [comma] (map escapeCsv ?f2) @ newline # []))"
    unfolding parseCsv_def header_parse l1 l2 by simp
  also have "\<dots> = parseCsv_go FieldStart [] [] ([header_fields] @ [?f1])
                     (join [comma] (map escapeCsv ?f2) @ newline # [])"
    by (rule s1)
  also have "\<dots> = parseCsv_go FieldStart [] [] (([header_fields] @ [?f1]) @ [?f2]) []"
    by (rule s2)
  finally show ?thesis by simp
qed

text \<open>
  Claim C5. Row encoding is RFC 4180. For rows whose price and date print without a comma,
  a double quote or a newline (as two-decimal numbers and ISO timestamps do):
  every one of the seven fields of an encoded row is written by the RFC 4180 rule (wrapped
  in double quotes with inner double quotes doubled exactly when it contains a comma, a
  double quote or a newline); reading the header followed by two encoded rows with an
  RFC 4180 reader gives back the header's names and the two rows field for field; and the
  name \<open>Ultra, "Pro" Widget\<close> is encoded as \<open>"Ultra, ""Pro"" Widget"\<close>.
\<close>

theorem csv_encoding_rfc4180_round_trip:
  assumes "plain (toFixed2 pf (p_price r1))" "plain (toISOString pf (p_createdAt r1))"
      and "plain (toFixed2 pf (p_price r2))" "plain (toISOString pf (p_createdAt r2))"
  shows "rowToCsvLine pf r1 = join [comma] (map rfc4180_field (row_fields pf r1)) @ [newline]
       \<and> rowToCsvLine pf r2 = join [comma] (map rfc4180_field (row_fields pf r2)) @ [newline]
       \<and> parseCsv (CSV_HEADER @ rowToCsvLine pf r1 @ rowToCsvLine pf r2) =
           [header_fields, row_fields pf r1, row_fields pf r2]
       \<and> escapeCsv quoted_name = quoted_name_encoded"
proof -
  have e: "map escapeCsv fs = map rfc4180_field fs" for fs
    by (simp add: escapeCsv_rfc4180)
  have a: "rowToCsvLine pf r1 = join [comma] (map rfc4180_field (row_fields pf r1)) @ [newline]"
    using rowToCsvLine_as_escaped [OF assms(1,2)] by (simp only: e)
  have b: "rowToCsvLine pf r2 = join [comma] (map rfc4180_field (row_fields pf r2)) @ [newline]"
    using rowToCsvLine_as_escaped [OF assms(3,4)] by (simp only: e)
  have c: "parseCsv (CSV_HEADER @ rowToCsvLine pf r1 @ rowToCsvLine pf r2) =
        [header_fields, row_fields pf r1, row_fields pf r2]"
    using assms by (rule parse_header_and_two_rows)
  have d: "escapeCsv quoted_name = quoted_name_encoded"
    by (simp add: escapeCsv_def quoted_name_def quoted_name_encoded_def replace_quotes_def
        comma_def dquote_def newline_def)
  from a b c d show ?thesis by (intro conjI)
qed

lemma sample_rows_plain:
  "plain (toFixed2 sample_platform (p_price sample_row_a))"
  "plain (toISOString sample_platform (p_createdAt sample_row_a))"
  "plain (toFixed2 sample_platform (p_price sample_row_b))"
  "plain (toISOString sample_platform (p_createdAt sample_row_b))"
  by (simp_all add: sample_platform_def sample_row_a_def sample_row_b_def cents_toFixed2_def
      iso_text_def plain_def comma_def dquote_def newline_def)

theorem csv_encoding_rfc4180_round_trip_witness:
  "parseCsv (CSV_HEADER @ rowToCsvLine sample_platform sample_row_a
                        @ rowToCsvLine sample_platform sample_row_b) =
     [header_fields,
      [''4'', quoted_name, ''Toys'', ''19.99'', ''12'', ''active'', ''2024-01-05T10:00:00.000Z''],
      [''5'', ''Mega Gadget 5'', ''Home'', ''2.50'', ''0'', ''inactive'', ''2024-01-06T10:00:00.000Z'']]"
  using csv_encoding_rfc4180_round_trip
          [OF sample_rows_plain, THEN conjunct2, THEN conjunct2, THEN conjunct1]
  by (simp add: row_fields_def sample_platform_def sample_row_a_def sample_row_b_def
      cents_toFixed2_def iso_text_def number_to_string_def)

section \<open>Reasoning about the loop\<close>

text \<open>
  When the job is in the store, a pass through the loop body either finds no rows and
  breaks, or writes the chunk, persists the progress and goes on; it never throws.
\<close>

lemma update_job_found:
  assumes "exportJob_table (db st) jobId = Some job"
  shows "update_job st jobId dat =
           (st\<lparr>db := (db st)\<lparr>exportJob_table := (exportJob_table (db st))(jobId \<mapsto> apply_data job dat)\<rparr>,
               calls := calls st @ [Update jobId dat (Inr (apply_data job dat))]\<rparr>, None)"
  using assms by (simp add: update_job_def prisma_exportJob_update_def)

lemma export_chunk_empty:
  assumes "prisma_product_findMany pf (db st) whr c CHUNK_SIZE = []"
  shows "export_chunk pf jobId whr tot st c r =
           Break (st\<lparr>calls := calls st @
                     [FindMany \<lparr>fa_where = whr, fa_id_gt = c, fa_take = CHUNK_SIZE\<rparr> []]\<rparr>)"
  using assms by (simp add: export_chunk_def fetch_chunk_def)

lemma export_chunk_found:
  assumes "exportJob_table (db st) jobId = Some job"
      and "prisma_product_findMany pf (db st) whr c CHUNK_SIZE = ps" "ps \<noteq> []"
  shows "export_chunk pf jobId whr tot st c r =
           Continue
             (st\<lparr>db := (db st)\<lparr>exportJob_table := (exportJob_table (db st))
                       (jobId \<mapsto> apply_data job (progress_data (p_id (last ps)) (r + int (length ps))))\<rparr>,
                 enqueued := enqueued st @
                    [Message (concat (map (rowToCsvLine pf) ps)),
                     Progress (r + int (length ps)) tot],
                 calls := calls st @
                    [FindMany \<lparr>fa_where = whr, fa_id_gt = c, fa_take = CHUNK_SIZE\<rparr> ps,
                     Update jobId (progress_data (p_id (last ps)) (r + int (length ps)))
                       (Inr (apply_data job (progress_data (p_id (last ps)) (r + int (length ps)))))]\<rparr>)
             (p_id (last ps)) (r + int (length ps))"
  using assms
  by (simp add: export_chunk_def fetch_chunk_def Let_def send_def update_job_found [of _ _ job])

lemma export_loop_rule:
  assumes "exportJob_table (db st) jobId = Some job" and "I st c r job"
    and step: "\<And>st c r job ps.
        exportJob_table (db st) jobId = Some job \<Longrightarrow> I st c r job \<Longrightarrow>
        prisma_product_findMany pf (db st) whr c CHUNK_SIZE = ps \<Longrightarrow> ps \<noteq> [] \<Longrightarrow>
        I (st\<lparr>db := (db st)\<lparr>exportJob_table := (exportJob_table (db st))
                  (jobId \<mapsto> apply_data job (progress_data (p_id (last ps)) (r + int (length ps))))\<rparr>,
              enqueued := enqueued st @
                 [Message (concat (map (rowToCsvLine pf) ps)), Progress (r + int (length ps)) tot],
              calls := calls st @
                 [FindMany \<lparr>fa_where = whr, fa_id_gt = c, fa_take = CHUNK_SIZE\<rparr> ps,
                  Update jobId (progress_data (p_id (last ps)) (r + int (length ps)))
                    (Inr (apply_data job (progress_data (p_id (last ps)) (r + int (length ps)))))]\<rparr>)
          (p_id (last ps)) (r + int (length ps))
          (apply_data job (progress_data (p_id (last ps)) (r + int (length ps))))"
    and exit: "\<And>st c r job.
        exportJob_table (db st) jobId = Some job \<Longrightarrow> I st c r job \<Longrightarrow>
        prisma_product_findMany pf (db st) whr c CHUNK_SIZE = [] \<Longrightarrow>
        Q (st\<lparr>calls := calls st @
                [FindMany \<lparr>fa_where = whr, fa_id_gt = c, fa_take = CHUNK_SIZE\<rparr> []]\<rparr>) r job"
  shows "\<exists>st' r' job'. export_loop pf jobId whr tot st c r = (st', Inr r') \<and>
           exportJob_table (db st') jobId = Some job' \<and> Q st' r' job'"
  using assms
proof (induction pf jobId whr tot st c r arbitrary: job rule: export_loop.induct)
  case (1 pf jobId whr tot st c r)
  note found = "1.prems"(1) and inv = "1.prems"(2) and step = "1.prems"(3) and exit = "1.prems"(4)
  show ?case
  proof (cases "prisma_product_findMany pf (db st) whr c CHUNK_SIZE = []")
    case True
    show ?thesis
      using exit [OF found inv True] found
      by (subst export_loop.simps) (simp add: export_chunk_empty [OF True])
  next
    case False
    define ps where "ps = prisma_product_findMany pf (db st) whr c CHUNK_SIZE"
    have ps: "prisma_product_findMany pf (db st) whr c CHUNK_SIZE = ps" "ps \<noteq> []"
      using False by (simp_all add: ps_def)
    note ch = export_chunk_found [OF found ps, of tot r]
    note inv' = step [OF found inv ps]
    have "\<exists>st' r' job'. export_loop pf jobId whr tot
             (st\<lparr>db := (db st)\<lparr>exportJob_table := (exportJob_table (db st))
                  (jobId \<mapsto> apply_data job (progress_data (p_id (last ps)) (r + int (length ps))))\<rparr>,
              enqueued := enqueued st @
                 [Message (concat (map (rowToCsvLine pf) ps)), Progress (r + int (length ps)) tot],
              calls := calls st @
                 [FindMany \<lparr>fa_where = whr, fa_id_gt = c, fa_take = CHUNK_SIZE\<rparr> ps,
                  Update jobId (progress_data (p_id (last ps)) (r + int (length ps)))
                    (Inr (apply_data job (progress_data (p_id (last ps)) (r + int (length ps)))))]\<rparr>)
             (p_id (last ps)) (r + int (length ps)) = (st', Inr r') \<and>
           exportJob_table (db st') jobId = Some job' \<and> Q st' r' job'"
      by (rule "1.IH" [OF ch _ inv' step exit]) simp_all
    then show ?thesis
      by (subst export_loop.simps) (simp add: ch)
  qed
qed


lemma apply_status_data: "apply_data job (status_data s) = job\<lparr>j_status := s\<rparr>"
  by (simp add: apply_data_def status_data_def)

lemma apply_progress_data:
  "apply_data job (progress_data c n) =
     job\<lparr>j_lastCursor := c, j_rowsExported := n, j_status := PROCESSING\<rparr>"
  by (simp add: apply_data_def progress_data_def)

lemma GET_found:
  assumes "exportJob_table d jobId = Some job"
      and "export_loop pf jobId (GET_where (j_filters job)) (j_totalRows job)
             (loop_entry d jobId job) (j_lastCursor job) (j_rowsExported job) = (st3, Inr r')"
      and "exportJob_table (db st3) jobId = Some job3"
  shows "GET pf d jobId =
           st3\<lparr>db := (db st3)\<lparr>exportJob_table := (exportJob_table (db st3))
                     (jobId \<mapsto> job3\<lparr>j_status := DONE\<rparr>)\<rparr>,
               enqueued := enqueued st3 @ [DoneEvent r'],
               calls := calls st3 @ [Update jobId (status_data DONE) (Inr (job3\<lparr>j_status := DONE\<rparr>))],
               closed := True\<rparr>"
proof -
  have fj: "find_job (open_stream d) jobId =
              (\<lparr>db = d, enqueued = [], calls = [FindUnique jobId (Some job)], closed = False\<rparr>, Some job)"
    using assms(1) by (simp add: find_job_def prisma_exportJob_findUnique_def open_stream_def Let_def)
  have uj: "update_job \<lparr>db = d, enqueued = [], calls = [FindUnique jobId (Some job)], closed = False\<rparr>
              jobId (status_data PROCESSING) =
            (\<lparr>db = d\<lparr>exportJob_table := (exportJob_table d)(jobId \<mapsto> job\<lparr>j_status := PROCESSING\<rparr>)\<rparr>,
              enqueued = [],
              calls = [FindUnique jobId (Some job),
                       Update jobId (status_data PROCESSING) (Inr (job\<lparr>j_status := PROCESSING\<rparr>))],
              closed = False\<rparr>, None)"
    using assms(1) by (simp add: update_job_found [of _ _ job] apply_status_data)
  have "GET_try pf (open_stream d) jobId =
          (send (fst (update_job st3 jobId (status_data DONE))) (DoneEvent r'), None)"
    using assms(2)
    by (simp add: GET_try_def fj uj send_def loop_entry_def [symmetric] update_job_found [OF assms(3)])
  then show ?thesis
    by (simp add: GET_def update_job_found [OF assms(3)] send_def close_def apply_status_data)
qed

lemma loop_entry_found:
  "exportJob_table (db (loop_entry d jobId job)) jobId = Some (job\<lparr>j_status := PROCESSING\<rparr>)"
  by (simp add: loop_entry_def)


text \<open>
  A run whose first query returns rows and whose second returns none, written out in full:
  the shape of every run on a table of fewer than \<open>CHUNK_SIZE\<close> matching rows.
\<close>

lemma findMany_table [simp]:
  "prisma_product_findMany pf (d\<lparr>exportJob_table := m\<rparr>) = prisma_product_findMany pf d"
  by (simp add: prisma_product_findMany_def fun_eq_iff)

lemma GET_one_chunk:
  assumes found: "exportJob_table d jobId = Some job"
      and first: "prisma_product_findMany pf d (GET_where (j_filters job)) (j_lastCursor job) CHUNK_SIZE = ps"
                 "ps \<noteq> []"
      and second: "prisma_product_findMany pf d (GET_where (j_filters job)) (p_id (last ps)) CHUNK_SIZE = []"
  shows "GET pf d jobId =
     \<lparr>db = d\<lparr>exportJob_table := (exportJob_table d)
              (jobId \<mapsto> job\<lparr>j_lastCursor := p_id (last ps),
                               j_rowsExported := j_rowsExported job + int (length ps),
                               j_status := DONE\<rparr>)\<rparr>,
      enqueued = [Message CSV_HEADER, Message (concat (map (rowToCsvLine pf) ps)),
                  Progress (j_rowsExported job + int (length ps)) (j_totalRows job),
                  DoneEvent (j_rowsExported job + int (length ps))],
      calls = [FindUnique jobId (Some job),
               Update jobId (status_data PROCESSING) (Inr (job\<lparr>j_status := PROCESSING\<rparr>)),
               FindMany \<lparr>fa_where = GET_where (j_filters job), fa_id_gt = j_lastCursor job,
                         fa_take = CHUNK_SIZE\<rparr> ps,
               Update jobId (progress_data (p_id (last ps)) (j_rowsExported job + int (length ps)))
                 (Inr (job\<lparr>j_lastCursor := p_id (last ps),
                            j_rowsExported := j_rowsExported job + int (length ps),
                            j_status := PROCESSING\<rparr>)),
               FindMany \<lparr>fa_where = GET_where (j_filters job), fa_id_gt = p_id (last ps),
                         fa_take = CHUNK_SIZE\<rparr> [],
               Update jobId (status_data DONE)
                 (Inr (job\<lparr>j_lastCursor := p_id (last ps),
                            j_rowsExported := j_rowsExported job + int (length ps),
                            j_status := DONE\<rparr>))],
      closed = True\<rparr>"
proof -
  let ?whr = "GET_where (j_filters job)" and ?tot = "j_totalRows job"
  let ?c = "j_lastCursor job" and ?r = "j_rowsExported job"
  let ?st = "loop_entry d jobId job"
  have f1: "prisma_product_findMany pf (db ?st) ?whr ?c CHUNK_SIZE = ps"
    using first(1) by (simp add: loop_entry_def)
  note c1 = export_chunk_found [OF loop_entry_found f1 first(2), of ?tot ?r]
  define st1 where "st1 = ?st\<lparr>db := (db ?st)\<lparr>exportJob_table := (exportJob_table (db ?st))
                       (jobId \<mapsto> apply_data (job\<lparr>j_status := PROCESSING\<rparr>)
                           (progress_data (p_id (last ps)) (?r + int (length ps))))\<rparr>,
                 enqueued := enqueued ?st @
                    [Message (concat (map (rowToCsvLine pf) ps)),
                     Progress (?r + int (length ps)) ?tot],
                 calls := calls ?st @
                    [FindMany \<lparr>fa_where = ?whr, fa_id_gt = ?c, fa_take = CHUNK_SIZE\<rparr> ps,
                     Update jobId (progress_data (p_id (last ps)) (?r + int (length ps)))
                       (Inr (apply_data (job\<lparr>j_status := PROCESSING\<rparr>)
                           (progress_data (p_id (last ps)) (?r + int (length ps)))))]\<rparr>"
  have f2: "prisma_product_findMany pf (db st1) ?whr (p_id (last ps)) CHUNK_SIZE = []"
    using second by (simp add: st1_def loop_entry_def)
  note c2 = export_chunk_empty [OF f2, of jobId ?tot "?r + int (length ps)"]
  have loop: "export_loop pf jobId ?whr ?tot ?st ?c ?r =
                (st1\<lparr>calls := calls st1 @
                   [FindMany \<lparr>fa_where = ?whr, fa_id_gt = p_id (last ps), fa_take = CHUNK_SIZE\<rparr> []]\<rparr>,
                 Inr (?r + int (length ps)))"
    by (subst export_loop.simps, simp add: c1 st1_def [symmetric],
        subst export_loop.simps, simp add: c2)
  have found3: "exportJob_table (db (st1\<lparr>calls := calls st1 @
                   [FindMany \<lparr>fa_where = ?whr, fa_id_gt = p_id (last ps), fa_take = CHUNK_SIZE\<rparr> []]\<rparr>))
                  jobId = Some (job\<lparr>j_lastCursor := p_id (last ps),
                            j_rowsExported := ?r + int (length ps), j_status := PROCESSING\<rparr>)"
    by (simp add: st1_def loop_entry_def apply_progress_data)
  show ?thesis
    unfolding GET_found [OF found loop found3]
    by (simp add: st1_def loop_entry_def apply_progress_data)
qed

section \<open>Progress only moves forward\<close>

lemma persisted_append: "persisted (xs @ ys) = persisted xs @ persisted ys"
  by (induction xs rule: persisted.induct) simp_all

lemma fetches_append: "fetches (xs @ ys) = fetches xs @ fetches ys"
  by (induction xs rule: fetches.induct) simp_all

lemma sorted_le_last: "sorted (zs :: int list) \<Longrightarrow> z \<in> set zs \<Longrightarrow> z \<le> last zs"
  by (induction zs) auto

lemma sorted_map_snoc:
  fixes f :: "'a \<Rightarrow> int"
  assumes "sorted (map f (x # xs))" "f (last (x # xs)) \<le> f y"
  shows "sorted (map f (x # xs @ [y]))"
proof -
  have "last (map f (x # xs)) = f (last (x # xs))"
    by (rule last_map) simp
  then have "\<forall>z \<in> set (map f (x # xs)). z \<le> f y"
    using sorted_le_last [OF assms(1)] assms(2) by fastforce
  then have "sorted (map f (x # xs) @ [f y])" using assms(1) by (simp add: sorted_append)
  then show ?thesis by simp
qed

lemma loop_writes_monotone:
  assumes found: "exportJob_table d jobId = Some job"
  shows "\<exists>st' r' job'.
           export_loop pf jobId (GET_where (j_filters job)) (j_totalRows job)
             (loop_entry d jobId job) (j_lastCursor job) (j_rowsExported job) = (st', Inr r') \<and>
           exportJob_table (db st') jobId = Some job' \<and>
           (last (job # persisted (calls st')) = job' \<and>
            sorted (map j_lastCursor (job # persisted (calls st'))) \<and>
            sorted (map j_rowsExported (job # persisted (calls st'))))"
proof (rule export_loop_rule
    [where I = "\<lambda>st c r j. j_lastCursor j = c \<and> j_rowsExported j = r \<and>
                  last (job # persisted (calls st)) = j \<and>
                  sorted (map j_lastCursor (job # persisted (calls st))) \<and>
                  sorted (map j_rowsExported (job # persisted (calls st)))"
       and Q = "\<lambda>st r j. last (job # persisted (calls st)) = j \<and>
                  sorted (map j_lastCursor (job # persisted (calls st))) \<and>
                  sorted (map j_rowsExported (job # persisted (calls st)))"
       and job = "job\<lparr>j_status := PROCESSING\<rparr>"], goal_cases)
  case 1
  show ?case by (rule loop_entry_found)
next
  case 2
  show ?case by (simp add: loop_entry_def)
next
  case (3 st c r j ps)
  let ?j' = "apply_data j (progress_data (p_id (last ps)) (r + int (length ps)))"
  from 3 have lt: "c < p_id (last ps)"
    using findMany_last(2) [of pf "db st" "GET_where (j_filters job)" c CHUNK_SIZE] by auto
  from 3 have cur: "j_lastCursor (last (job # persisted (calls st))) \<le> j_lastCursor ?j'"
    and rows: "j_rowsExported (last (job # persisted (calls st))) \<le> j_rowsExported ?j'"
    using lt by (simp_all add: apply_progress_data)
  have "sorted (map j_lastCursor (job # persisted (calls st) @ [?j']))"
    using 3 cur by (intro sorted_map_snoc) simp_all
  moreover have "sorted (map j_rowsExported (job # persisted (calls st) @ [?j']))"
    using 3 rows by (intro sorted_map_snoc) simp_all
  ultimately show ?case
    by (simp add: persisted_append apply_progress_data)
next
  case (4 st c r j)
  then show ?case by (simp add: persisted_append)
qed

text \<open>
  Claim C2. For every run of the export stream on a job that is in the store, the cursor
  and the count of exported rows of the job row, as they stand after each write of the run,
  never decrease from one write to the next, and none of them is below the value the run
  read from the store at its start.
\<close>

theorem progress_writes_monotone:
  assumes "exportJob_table d jobId = Some job"
  shows "sorted (map j_lastCursor (job # persisted (calls (GET pf d jobId)))) \<and>
         sorted (map j_rowsExported (job # persisted (calls (GET pf d jobId))))"
proof -
  from loop_writes_monotone [OF assms, of pf] obtain st' r' job' where
    loop: "export_loop pf jobId (GET_where (j_filters job)) (j_totalRows job)
             (loop_entry d jobId job) (j_lastCursor job) (j_rowsExported job) = (st', Inr r')"
    and found': "exportJob_table (db st') jobId = Some job'"
    and lst: "last (job # persisted (calls st')) = job'"
    and s1: "sorted (map j_lastCursor (job # persisted (calls st')))"
    and s2: "sorted (map j_rowsExported (job # persisted (calls st')))"
    by blast
  have calls: "calls (GET pf d jobId) =
                 calls st' @ [Update jobId (status_data DONE) (Inr (job'\<lparr>j_status := DONE\<rparr>))]"
    by (simp add: GET_found [OF assms loop found'])
  have "sorted (map j_lastCursor (job # persisted (calls st') @ [job'\<lparr>j_status := DONE\<rparr>]))"
    using s1 lst by (intro sorted_map_snoc) simp_all
  moreover have "sorted (map j_rowsExported (job # persisted (calls st') @ [job'\<lparr>j_status := DONE\<rparr>]))"
    using s2 lst by (intro sorted_map_snoc) simp_all
  ultimately show ?thesis by (simp add: calls persisted_append)
qed


lemma resumed_fetches:
  "prisma_product_findMany sample_platform resumed_db (GET_where (j_filters resumed_job))
     (j_lastCursor resumed_job) CHUNK_SIZE = [sample_row 2, sample_row 3]"
  "prisma_product_findMany sample_platform resumed_db (GET_where (j_filters resumed_job))
     (p_id (last [sample_row 2, sample_row 3])) CHUNK_SIZE = []"
  by (simp_all add: prisma_product_findMany_def resumed_db_def resumed_job_def sample_table_def
      sample_row_def GET_where_def no_filters_def row_matches_def CHUNK_SIZE_def)

theorem progress_writes_monotone_witness:
  "exportJob_table resumed_db ''job-1'' = Some resumed_job \<and>
   map j_lastCursor (persisted (calls (GET sample_platform resumed_db ''job-1''))) = [1, 3, 3] \<and>
   sorted (map j_lastCursor
     (resumed_job # persisted (calls (GET sample_platform resumed_db ''job-1'')))) \<and>
   sorted (map j_rowsExported
     (resumed_job # persisted (calls (GET sample_platform resumed_db ''job-1''))))"
proof -
  have found: "exportJob_table resumed_db ''job-1'' = Some resumed_job"
    by (simp add: resumed_db_def)
  have run: "map j_lastCursor (persisted (calls (GET sample_platform resumed_db ''job-1''))) = [1, 3, 3]"
    unfolding GET_one_chunk [OF found resumed_fetches(1) _ resumed_fetches(2), simplified]
    by (simp add: sample_row_def resumed_job_def)
  from found run progress_writes_monotone [OF found, of sample_platform] show ?thesis
    by (intro conjI) simp_all
qed

section \<open>Chunk queries\<close>

lemma follow_append:
  "fetches_follow_cursor whr c (xs @ ys) =
     (fetches_follow_cursor whr c xs \<and> fetches_follow_cursor whr (cursor_after c xs) ys)"
  by (induction whr c xs rule: fetches_follow_cursor.induct) simp_all

lemma cursor_after_append: "cursor_after c (xs @ ys) = cursor_after (cursor_after c xs) ys"
  by (induction c xs rule: cursor_after.induct) simp_all

lemma findMany_fetch_ok:
  "fetch_ok whr c \<lparr>fa_where = whr, fa_id_gt = c, fa_take = CHUNK_SIZE\<rparr>
     (prisma_product_findMany pf d whr c CHUNK_SIZE)"
proof -
  let ?ps = "prisma_product_findMany pf d whr c CHUNK_SIZE"
  have "length ?ps \<le> CHUNK_SIZE" by (simp add: prisma_product_findMany_def)
  moreover have "list_all (\<lambda>r. c < p_id r) ?ps"
    using findMany_subset [of pf d whr c CHUNK_SIZE] by (auto simp: list_all_iff)
  moreover have "sorted (map p_id ?ps)"
    unfolding prisma_product_findMany_def take_map [symmetric]
    by (rule sorted_wrt_take) simp
  ultimately show ?thesis by (simp add: fetch_ok_def)
qed

lemma loop_fetches_follow:
  assumes found: "exportJob_table d jobId = Some job"
  shows "\<exists>st' r' job'.
           export_loop pf jobId (GET_where (j_filters job)) (j_totalRows job)
             (loop_entry d jobId job) (j_lastCursor job) (j_rowsExported job) = (st', Inr r') \<and>
           exportJob_table (db st') jobId = Some job' \<and>
           (fetches_follow_cursor (GET_where (j_filters job)) (j_lastCursor job) (calls st') \<and>
            (\<exists>a rows rest. fetches (calls st') = (a, rows) # rest \<and> fa_id_gt a = j_lastCursor job))"
proof (rule export_loop_rule
    [where I = "\<lambda>st c r j. j_lastCursor j = c \<and>
                  fetches_follow_cursor (GET_where (j_filters job)) (j_lastCursor job) (calls st) \<and>
                  cursor_after (j_lastCursor job) (calls st) = c \<and>
                  (case fetches (calls st) of [] \<Rightarrow> c = j_lastCursor job
                   | f # _ \<Rightarrow> fa_id_gt (fst f) = j_lastCursor job)"
       and Q = "\<lambda>st r j.
                  fetches_follow_cursor (GET_where (j_filters job)) (j_lastCursor job) (calls st) \<and>
                  (\<exists>a rows rest. fetches (calls st) = (a, rows) # rest \<and> fa_id_gt a = j_lastCursor job)"
       and job = "job\<lparr>j_status := PROCESSING\<rparr>"], goal_cases)
  case 1
  show ?case by (rule loop_entry_found)
next
  case 2
  show ?case by (simp add: loop_entry_def)
next
  case (3 st c r j ps)
  have ok: "fetch_ok (GET_where (j_filters job)) c
              \<lparr>fa_where = GET_where (j_filters job), fa_id_gt = c, fa_take = CHUNK_SIZE\<rparr> ps"
    using findMany_fetch_ok [of "GET_where (j_filters job)" c pf "db st"] 3 by simp
  from 3 ok show ?case
    by (auto simp: follow_append cursor_after_append fetches_append apply_progress_data
        split: list.splits)
next
  case (4 st c r j)
  have ok: "fetch_ok (GET_where (j_filters job)) c
              \<lparr>fa_where = GET_where (j_filters job), fa_id_gt = c, fa_take = CHUNK_SIZE\<rparr>
              ([] :: ('a, 'b) ProductRow list)"
    using findMany_fetch_ok [of "GET_where (j_filters job)" c pf "db st"] 4 by simp
  from 4 ok show ?case
    by (auto simp: follow_append fetches_append split: list.splits)
qed

lemma GET_fetches_follow:
  assumes "exportJob_table d jobId = Some job"
  shows "fetches_follow_cursor (GET_where (j_filters job)) (j_lastCursor job) (calls (GET pf d jobId))"
    and "\<exists>a rows rest. fetches (calls (GET pf d jobId)) = (a, rows) # rest \<and>
           fa_id_gt a = j_lastCursor job"
proof -
  from loop_fetches_follow [OF assms, of pf] obtain st' r' job' where
    loop: "export_loop pf jobId (GET_where (j_filters job)) (j_totalRows job)
             (loop_entry d jobId job) (j_lastCursor job) (j_rowsExported job) = (st', Inr r')"
    and found': "exportJob_table (db st') jobId = Some job'"
    and fol: "fetches_follow_cursor (GET_where (j_filters job)) (j_lastCursor job) (calls st')"
    and fst: "\<exists>a rows rest. fetches (calls st') = (a, rows) # rest \<and> fa_id_gt a = j_lastCursor job"
    by blast
  have calls: "calls (GET pf d jobId) =
                 calls st' @ [Update jobId (status_data DONE) (Inr (job'\<lparr>j_status := DONE\<rparr>))]"
    by (simp add: GET_found [OF assms loop found'])
  show "fetches_follow_cursor (GET_where (j_filters job)) (j_lastCursor job) (calls (GET pf d jobId))"
    using fol by (simp add: calls follow_append)
  show "\<exists>a rows rest. fetches (calls (GET pf d jobId)) = (a, rows) # rest \<and>
           fa_id_gt a = j_lastCursor job"
    using fst by (auto simp: calls fetches_append)
qed

text \<open>
  Claim C1. For every run of the export stream on a job that is in the store with cursor
  \<open>c\<close>: every chunk query asks for the rows whose id is strictly greater than the cursor
  the store holds at that moment, with the job's filter predicate and a limit of
  \<open>CHUNK_SIZE\<close> = 1000 rows; what it returns is ascending by id, beyond that cursor and at
  most 1000 rows long; and the first query of the run is made with \<open>id > c\<close>.
\<close>

theorem fetches_beyond_cursor:
  assumes "exportJob_table d jobId = Some job"
  shows "fetches_follow_cursor (GET_where (j_filters job)) (j_lastCursor job)
           (calls (GET pf d jobId)) \<and>
         (\<exists>a rows rest. fetches (calls (GET pf d jobId)) = (a, rows) # rest \<and>
            fa_id_gt a = j_lastCursor job)"
  using GET_fetches_follow [OF assms] by (intro conjI)


theorem fetches_beyond_cursor_witness:
  "exportJob_table resumed_db ''job-1'' = Some resumed_job \<and>
   map snd (fetches (calls (GET sample_platform resumed_db ''job-1''))) =
     [[sample_row 2, sample_row 3], []] \<and>
   fetches_follow_cursor (GET_where (j_filters resumed_job)) 1
     (calls (GET sample_platform resumed_db ''job-1''))"
proof -
  have found: "exportJob_table resumed_db ''job-1'' = Some resumed_job"
    by (simp add: resumed_db_def)
  have run: "map snd (fetches (calls (GET sample_platform resumed_db ''job-1''))) =
               [[sample_row 2, sample_row 3], []]"
    unfolding GET_one_chunk [OF found resumed_fetches(1) _ resumed_fetches(2), simplified]
    by simp
  from fetches_beyond_cursor [OF found, of sample_platform] found run show ?thesis
    by (simp add: resumed_job_def)
qed

section \<open>Job creation and the scan use one predicate\<close>

lemma follow_where:
  "fetches_follow_cursor whr c cs \<Longrightarrow> list_all (\<lambda>f. fa_where (fst f) = whr) (fetches cs)"
  by (induction whr c cs rule: fetches_follow_cursor.induct) (simp_all add: fetch_ok_def)

lemma POST_created:
  assumes "POST pf d newId body = Inr (d', resp)"
  shows "exportJob_table d newId = None"
    and "d' = d\<lparr>exportJob_table := (exportJob_table d)(newId \<mapsto>
                 \<lparr>j_filters = POST_filters body, j_status = PENDING,
                  j_totalRows = prisma_product_count pf d (POST_where (POST_filters body)),
                  j_lastCursor = 0, j_rowsExported = 0\<rparr>)\<rparr>"
    and "resp = \<lparr>r_jobId = newId,
                 r_totalRows = prisma_product_count pf d (POST_where (POST_filters body))\<rparr>"
  using assms
  by (auto simp: POST_def Let_def prisma_exportJob_create_def split: option.splits sum.splits)

lemma POST_fresh:
  assumes "exportJob_table d newId = None"
  shows "POST pf d newId body =
           Inr (d\<lparr>exportJob_table := (exportJob_table d)(newId \<mapsto>
                 \<lparr>j_filters = POST_filters body, j_status = PENDING,
                  j_totalRows = prisma_product_count pf d (POST_where (POST_filters body)),
                  j_lastCursor = 0, j_rowsExported = 0\<rparr>)\<rparr>,
                \<lparr>r_jobId = newId,
                 r_totalRows = prisma_product_count pf d (POST_where (POST_filters body))\<rparr>)"
  using assms by (simp add: POST_def Let_def prisma_exportJob_create_def)

lemma where_same: "POST_where f = GET_where f"
  by (simp add: POST_where_def GET_where_def)

text \<open>
  Claim C9. Job creation and the export stream build the filter predicate from the same
  filters by the same rule. For every request that creates a job, the stored filters are
  those of the request, the two rules give the same predicate on them, the \<open>totalRows\<close>
  stored (and returned) is the number of rows of the table under the predicate the stream
  builds, and every chunk query of a stream on that job is made with that predicate.
\<close>

theorem total_counts_scanned_predicate:
  assumes "POST pf d newId body = Inr (d', resp)"
  shows "\<exists>job. exportJob_table d' newId = Some job \<and>
           j_filters job = POST_filters body \<and>
           POST_where (j_filters job) = GET_where (j_filters job) \<and>
           r_totalRows resp = j_totalRows job \<and>
           j_totalRows job =
             int (length (filter (row_matches pf (GET_where (j_filters job))) (product_table d'))) \<and>
           list_all (\<lambda>f. fa_where (fst f) = GET_where (j_filters job))
             (fetches (calls (GET pf d' newId)))"
proof -
  let ?job = "\<lparr>j_filters = POST_filters body, j_status = PENDING,
               j_totalRows = prisma_product_count pf d (POST_where (POST_filters body)),
               j_lastCursor = 0, j_rowsExported = 0\<rparr>"
  note c = POST_created [OF assms]
  have found: "exportJob_table d' newId = Some ?job" by (simp add: c(2))
  have scan: "list_all (\<lambda>f. fa_where (fst f) = GET_where (j_filters ?job))
                (fetches (calls (GET pf d' newId)))"
    using GET_fetches_follow(1) [OF found, of pf] by (rule follow_where)
  have total: "j_totalRows ?job =
       int (length (filter (row_matches pf (GET_where (j_filters ?job))) (product_table d')))"
    by (simp add: c(2) prisma_product_count_def where_same)
  show ?thesis
    using found scan total by (intro exI [of _ ?job]) (simp add: c(3) where_same)
qed

theorem total_counts_scanned_predicate_witness:
  "\<exists>d' resp. POST sample_platform resumed_db ''job-2'' toys_body = Inr (d', resp) \<and>
      r_totalRows resp = 3 \<and>
      (\<exists>job. exportJob_table d' ''job-2'' = Some job \<and>
         j_filters job = POST_filters toys_body \<and>
         POST_where (j_filters job) = GET_where (j_filters job) \<and>
         r_totalRows resp = j_totalRows job \<and>
         j_totalRows job =
           int (length (filter (row_matches sample_platform (GET_where (j_filters job)))
                  (product_table d'))) \<and>
         list_all (\<lambda>f. fa_where (fst f) = GET_where (j_filters job))
           (fetches (calls (GET sample_platform d' ''job-2''))))"
proof -
  have fresh: "exportJob_table resumed_db ''job-2'' = None"
    by (simp add: resumed_db_def)
  note post = POST_fresh [OF fresh, of sample_platform toys_body]
  have total: "prisma_product_count sample_platform resumed_db (POST_where (POST_filters toys_body)) = 3"
    by (simp add: prisma_product_count_def resumed_db_def sample_table_def sample_row_def
        POST_where_def POST_filters_def toys_body_def row_matches_def)
  show ?thesis
    using total_counts_scanned_predicate [OF post] post total by simp
qed

text \<open>
  Claim C10. At job creation a filter field that is absent or the empty string puts no key
  in the predicate, and a predicate without keys holds of every row; a request with an
  empty body on a free id creates a pending job whose \<open>totalRows\<close> is the number of all
  rows of the table.
\<close>

theorem creation_ignores_empty_filters:
  assumes "exportJob_table d newId = None"
  shows "w_category (POST_where (POST_filters body)) =
           (case b_category body of None \<Rightarrow> None | Some s \<Rightarrow> if s = [] then None else Some s) \<and>
         w_status (POST_where (POST_filters body)) =
           (case b_status body of None \<Rightarrow> None | Some s \<Rightarrow> if s = [] then None else Some s) \<and>
         w_name_contains (POST_where (POST_filters body)) =
           (case b_search body of None \<Rightarrow> None | Some s \<Rightarrow> if s = [] then None else Some s) \<and>
         row_matches pf \<lparr>w_category = None, w_status = None, w_name_contains = None\<rparr> r \<and>
         POST pf d newId \<lparr>b_category = None, b_status = None, b_search = None\<rparr> =
           Inr (d\<lparr>exportJob_table := (exportJob_table d)(newId \<mapsto>
                   \<lparr>j_filters = \<lparr>f_category = [], f_status = [], f_search = []\<rparr>,
                    j_status = PENDING, j_totalRows = int (length (product_table d)),
                    j_lastCursor = 0, j_rowsExported = 0\<rparr>)\<rparr>,
                \<lparr>r_jobId = newId, r_totalRows = int (length (product_table d))\<rparr>)"
proof -
  have "prisma_product_count pf d
          (POST_where (POST_filters \<lparr>b_category = None, b_status = None, b_search = None\<rparr>)) =
        int (length (product_table d))"
    by (simp add: prisma_product_count_def POST_where_def POST_filters_def row_matches_def)
  then show ?thesis
    using POST_fresh [OF assms, of pf "\<lparr>b_category = None, b_status = None, b_search = None\<rparr>"]
    by (simp add: POST_where_def POST_filters_def row_matches_def split: option.splits)
qed

theorem creation_ignores_empty_filters_witness:
  "exportJob_table resumed_db ''job-2'' = None \<and>
   w_category (POST_where (POST_filters toys_body)) = Some ''Toys'' \<and>
   w_status (POST_where (POST_filters toys_body)) = None \<and>
   w_name_contains (POST_where (POST_filters toys_body)) = None \<and>
   (case POST sample_platform resumed_db ''job-2'' empty_body of
      Inl e \<Rightarrow> False
    | Inr created \<Rightarrow> r_totalRows (snd created) = 3)"
proof -
  have fresh: "exportJob_table resumed_db ''job-2'' = None"
    by (simp add: resumed_db_def)
  show ?thesis
    using creation_ignores_empty_filters [OF fresh, of toys_body sample_platform]
    by (simp add: fresh toys_body_def empty_body_def resumed_db_def sample_table_def)
qed

section \<open>The progress write\<close>

text \<open>
  Claim C6, as the code has it. The progress write of the loop is a plain update: it fails
  when the job is not in the store; otherwise it overwrites cursor, count and status with
  what it is given, whatever the stored cursor is; and repeating it with the same arguments
  returns the same row and leaves the store as the first write left it.
\<close>

theorem advance_overwrites:
  "(exportJob_table d jobId = None \<longrightarrow>
      prisma_exportJob_update d jobId (progress_data c n) = Inl RecordNotFound) \<and>
   (exportJob_table d jobId = Some job \<longrightarrow>
      prisma_exportJob_update d jobId (progress_data c n) =
        Inr (d\<lparr>exportJob_table := (exportJob_table d)
               (jobId \<mapsto> job\<lparr>j_lastCursor := c, j_rowsExported := n, j_status := PROCESSING\<rparr>)\<rparr>,
             job\<lparr>j_lastCursor := c, j_rowsExported := n, j_status := PROCESSING\<rparr>)) \<and>
   (case prisma_exportJob_update d jobId (progress_data c n) of
      Inl e \<Rightarrow> True
    | Inr written \<Rightarrow> prisma_exportJob_update (fst written) jobId (progress_data c n) = Inr written)"
  by (auto simp: prisma_exportJob_update_def apply_progress_data split: option.splits)

theorem advance_overwrites_witness:
  "exportJob_table resumed_db ''job-1'' = Some resumed_job \<and>
   exportJob_table resumed_db ''job-2'' = None \<and>
   prisma_exportJob_update resumed_db ''job-2'' (progress_data 3 3) = Inl RecordNotFound \<and>
   map_sum id snd (prisma_exportJob_update resumed_db ''job-1'' (progress_data 3 3)) =
     Inr (resumed_job\<lparr>j_lastCursor := 3, j_rowsExported := 3, j_status := PROCESSING\<rparr>)"
  using advance_overwrites [of resumed_db "''job-1''" 3 3 resumed_job]
        advance_overwrites [of resumed_db "''job-2''" 3 3 resumed_job]
  by (simp add: resumed_db_def)

text \<open>
  A progress write with a cursor below the stored one is accepted: on a job with cursor 1,
  writing cursor 0 succeeds and the job is rewound.
\<close>

theorem advance_accepts_smaller_cursor:
  "j_lastCursor resumed_job = 1 \<and>
   map_sum id snd (prisma_exportJob_update resumed_db ''job-1'' (progress_data 0 0)) =
     Inr rewound_job"
  by (simp add: prisma_exportJob_update_def resumed_db_def resumed_job_def rewound_job_def
      apply_progress_data)


section \<open>A job whose filters match no row\<close>

lemma GET_no_chunk:
  assumes found: "exportJob_table d jobId = Some job"
      and none: "prisma_product_findMany pf d (GET_where (j_filters job)) (j_lastCursor job) CHUNK_SIZE = []"
  shows "GET pf d jobId =
     \<lparr>db = d\<lparr>exportJob_table := (exportJob_table d)(jobId \<mapsto> job\<lparr>j_status := DONE\<rparr>)\<rparr>,
      enqueued = [Message CSV_HEADER, DoneEvent (j_rowsExported job)],
      calls = [FindUnique jobId (Some job),
               Update jobId (status_data PROCESSING) (Inr (job\<lparr>j_status := PROCESSING\<rparr>)),
               FindMany \<lparr>fa_where = GET_where (j_filters job), fa_id_gt = j_lastCursor job,
                         fa_take = CHUNK_SIZE\<rparr> [],
               Update jobId (status_data DONE) (Inr (job\<lparr>j_status := DONE\<rparr>))],
      closed = True\<rparr>"
proof -
  let ?whr = "GET_where (j_filters job)" and ?st = "loop_entry d jobId job"
  have f: "prisma_product_findMany pf (db ?st) ?whr (j_lastCursor job) CHUNK_SIZE = []"
    using none by (simp add: loop_entry_def)
  have loop: "export_loop pf jobId ?whr (j_totalRows job) ?st (j_lastCursor job) (j_rowsExported job) =
                (?st\<lparr>calls := calls ?st @
                   [FindMany \<lparr>fa_where = ?whr, fa_id_gt = j_lastCursor job, fa_take = CHUNK_SIZE\<rparr> []]\<rparr>,
                 Inr (j_rowsExported job))"
    by (subst export_loop.simps) (simp add: export_chunk_empty [OF f])
  have found3: "exportJob_table (db (?st\<lparr>calls := calls ?st @
                   [FindMany \<lparr>fa_where = ?whr, fa_id_gt = j_lastCursor job, fa_take = CHUNK_SIZE\<rparr> []]\<rparr>))
                  jobId = Some (job\<lparr>j_status := PROCESSING\<rparr>)"
    by (simp add: loop_entry_def)
  show ?thesis
    unfolding GET_found [OF found loop found3] by (simp add: loop_entry_def)
qed

lemma findMany_no_match:
  assumes "filter (row_matches pf whr) (product_table d) = []"
  shows "prisma_product_findMany pf d whr c n = []"
proof -
  have "filter (\<lambda>r. row_matches pf whr r \<and> c < p_id r) (product_table d) =
        filter (\<lambda>r. c < p_id r) (filter (row_matches pf whr) (product_table d))"
    by (simp add: conj_commute)
  then show ?thesis using assms by (simp add: prisma_product_findMany_def)
qed

text \<open>
  Claim C7. For every job in the store whose filters match no row of the table, the run
  makes exactly one chunk query (which returns nothing), enqueues the header and one done
  event and nothing else (no chunk, no progress event), and leaves the job DONE.
\<close>

theorem empty_dataset_run:
  assumes "exportJob_table d jobId = Some job"
      and "filter (row_matches pf (GET_where (j_filters job))) (product_table d) = []"
  shows "fetches (calls (GET pf d jobId)) =
           [(\<lparr>fa_where = GET_where (j_filters job), fa_id_gt = j_lastCursor job,
              fa_take = CHUNK_SIZE\<rparr>, [])] \<and>
         enqueued (GET pf d jobId) = [Message CSV_HEADER, DoneEvent (j_rowsExported job)] \<and>
         map_option j_status (exportJob_table (db (GET pf d jobId)) jobId) = Some DONE"
  unfolding GET_no_chunk [OF assms(1) findMany_no_match [OF assms(2)]] by simp

theorem empty_dataset_run_witness:
  "exportJob_table books_db ''job-1'' = Some books_job \<and>
   filter (row_matches sample_platform (GET_where (j_filters books_job))) (product_table books_db) = [] \<and>
   length (fetches (calls (GET sample_platform books_db ''job-1''))) = 1 \<and>
   enqueued (GET sample_platform books_db ''job-1'') = [Message CSV_HEADER, DoneEvent 0] \<and>
   map_option j_status (exportJob_table (db (GET sample_platform books_db ''job-1'')) ''job-1'') = Some DONE"
proof -
  have found: "exportJob_table books_db ''job-1'' = Some books_job"
    by (simp add: books_db_def)
  have none: "filter (row_matches sample_platform (GET_where (j_filters books_job)))
                (product_table books_db) = []"
    by (simp add: books_db_def books_job_def sample_table_def sample_row_def GET_where_def
        row_matches_def)
  show ?thesis
    using empty_dataset_run [OF found none] found none by (simp add: books_job_def)
qed

section \<open>The status of a job that is streamed again\<close>

lemma loop_first_write:
  assumes found: "exportJob_table d jobId = Some job"
  shows "\<exists>st' r' job'.
           export_loop pf jobId (GET_where (j_filters job)) (j_totalRows job)
             (loop_entry d jobId job) (j_lastCursor job) (j_rowsExported job) = (st', Inr r') \<and>
           exportJob_table (db st') jobId = Some job' \<and>
           (\<exists>rest. persisted (calls st') = job\<lparr>j_status := PROCESSING\<rparr> # rest)"
  by (rule export_loop_rule
      [where I = "\<lambda>st c r j. \<exists>rest. persisted (calls st) = job\<lparr>j_status := PROCESSING\<rparr> # rest"
         and Q = "\<lambda>st r j. \<exists>rest. persisted (calls st) = job\<lparr>j_status := PROCESSING\<rparr> # rest"
         and job = "job\<lparr>j_status := PROCESSING\<rparr>"])
     (auto simp: loop_entry_def persisted_append)

text \<open>
  Claim C3, as the code has it. Starting the export stream on a job that is in the store,
  whatever its status, first writes the status PROCESSING; the run ends by writing DONE, so
  the job is DONE afterwards. Creating another job leaves the job as it is.
\<close>

theorem stream_rewrites_status:
  assumes "exportJob_table d jobId = Some job"
  shows "(\<exists>rest. persisted (calls (GET pf d jobId)) = job\<lparr>j_status := PROCESSING\<rparr> # rest) \<and>
         map_option j_status (exportJob_table (db (GET pf d jobId)) jobId) = Some DONE \<and>
         (POST pf d newId body = Inr (d', resp) \<longrightarrow> exportJob_table d' jobId = Some job)"
proof -
  from loop_first_write [OF assms, of pf] obtain st' r' job' rest where
    loop: "export_loop pf jobId (GET_where (j_filters job)) (j_totalRows job)
             (loop_entry d jobId job) (j_lastCursor job) (j_rowsExported job) = (st', Inr r')"
    and found': "exportJob_table (db st') jobId = Some job'"
    and first: "persisted (calls st') = job\<lparr>j_status := PROCESSING\<rparr> # rest"
    by blast
  note g = GET_found [OF assms loop found']
  have a: "\<exists>rest. persisted (calls (GET pf d jobId)) = job\<lparr>j_status := PROCESSING\<rparr> # rest"
    by (simp add: g persisted_append first)
  have b: "map_option j_status (exportJob_table (db (GET pf d jobId)) jobId) = Some DONE"
    by (simp add: g)
  have c: "POST pf d newId body = Inr (d', resp) \<longrightarrow> exportJob_table d' jobId = Some job"
  proof
    assume p: "POST pf d newId body = Inr (d', resp)"
    from POST_created(1) [OF p] assms have "jobId \<noteq> newId" by auto
    then show "exportJob_table d' jobId = Some job"
      using assms by (simp add: POST_created(2) [OF p])
  qed
  from a b c show ?thesis by (intro conjI)
qed

lemma done_fetch:
  "prisma_product_findMany sample_platform done_db (GET_where (j_filters done_job))
     (j_lastCursor done_job) CHUNK_SIZE = []"
  by (simp add: prisma_product_findMany_def done_db_def done_job_def sample_table_def
      sample_row_def GET_where_def no_filters_def row_matches_def CHUNK_SIZE_def)

lemma done_found: "exportJob_table done_db ''job-1'' = Some done_job"
  by (simp add: done_db_def)

theorem stream_rewrites_status_witness:
  "exportJob_table done_db ''job-1'' = Some done_job \<and>
   (\<exists>rest. persisted (calls (GET sample_platform done_db ''job-1'')) =
      done_job\<lparr>j_status := PROCESSING\<rparr> # rest) \<and>
   map_option j_status (exportJob_table (db (GET sample_platform done_db ''job-1'')) ''job-1'') =
      Some DONE \<and>
   (\<exists>d' resp. POST sample_platform done_db ''job-2'' toys_body = Inr (d', resp) \<and>
      exportJob_table d' ''job-1'' = Some done_job)"
proof -
  have fresh: "exportJob_table done_db ''job-2'' = None"
    by (simp add: done_db_def)
  note post = POST_fresh [OF fresh, of sample_platform toys_body]
  from stream_rewrites_status [OF done_found, of sample_platform "''job-2''" toys_body]
  show ?thesis using done_found post by simp
qed

text \<open>
  A job that is DONE does not stay DONE while it is streamed again: the two writes of the
  run leave it PROCESSING, then DONE.
\<close>

theorem done_job_leaves_done:
  "j_status done_job = DONE \<and>
   exportJob_table done_db ''job-1'' = Some done_job \<and>
   map j_status (persisted (calls (GET sample_platform done_db ''job-1''))) = [PROCESSING, DONE]"
  unfolding GET_no_chunk [OF done_found done_fetch]
  by (simp add: done_found) (simp add: done_job_def)


section \<open>One pass and two passes\<close>

text \<open>
  What the loop does to the database, and the count it ends with, depend on the database it
  starts from, the cursor and the count only, not on what was sent or recorded before.
\<close>

lemma export_chunk_db_only:
  assumes "db st = db st'"
  shows "(\<exists>a b. export_chunk pf jobId whr tot st c r = Break a \<and>
                export_chunk pf jobId whr tot st' c r = Break b \<and> db a = db b) \<or>
         (\<exists>a b e. export_chunk pf jobId whr tot st c r = Threw a e \<and>
                export_chunk pf jobId whr tot st' c r = Threw b e \<and> db a = db b) \<or>
         (\<exists>a b c' r'. export_chunk pf jobId whr tot st c r = Continue a c' r' \<and>
                export_chunk pf jobId whr tot st' c r = Continue b c' r' \<and> db a = db b)"
  using assms
  by (auto simp: export_chunk_def fetch_chunk_def Let_def send_def update_job_def
      split: sum.splits prod.splits)

lemma export_loop_db_only:
  "db st = db st' \<Longrightarrow>
     db (fst (export_loop pf jobId whr tot st c r)) = db (fst (export_loop pf jobId whr tot st' c r)) \<and>
     snd (export_loop pf jobId whr tot st c r) = snd (export_loop pf jobId whr tot st' c r)"
proof (induction pf jobId whr tot st c r arbitrary: st' rule: export_loop.induct)
  case (1 pf jobId whr tot st c r)
  from export_chunk_db_only [OF "1.prems", of pf jobId whr tot c r]
  consider
    (brk) a b where "export_chunk pf jobId whr tot st c r = Break a"
      "export_chunk pf jobId whr tot st' c r = Break b" "db a = db b"
  | (thr) a b e where "export_chunk pf jobId whr tot st c r = Threw a e"
      "export_chunk pf jobId whr tot st' c r = Threw b e" "db a = db b"
  | (cont) a b c' r' where "export_chunk pf jobId whr tot st c r = Continue a c' r'"
      "export_chunk pf jobId whr tot st' c r = Continue b c' r'" "db a = db b"
    by blast
  then show ?case
  proof cases
    case brk
    then show ?thesis
      by (simp add: export_loop.simps [of pf jobId whr tot st] export_loop.simps [of pf jobId whr tot st'])
  next
    case thr
    then show ?thesis
      by (simp add: export_loop.simps [of pf jobId whr tot st] export_loop.simps [of pf jobId whr tot st'])
  next
    case cont
    from "1.IH" [OF cont(1,3)] cont(1,2) show ?thesis
      by (simp add: export_loop.simps [of pf jobId whr tot st c r]
          export_loop.simps [of pf jobId whr tot st' c r])
  qed
qed

lemma loop_returns:
  assumes "exportJob_table (db st) jobId = Some job"
  shows "\<exists>st' r' job'. export_loop pf jobId whr tot st c r = (st', Inr r') \<and>
           exportJob_table (db st') jobId = Some job' \<and> True"
  by (rule export_loop_rule [where I = "\<lambda>st c r j. True" and Q = "\<lambda>st r j. True" and job = job])
     (simp_all add: assms)

lemma GET_final_job:
  assumes found: "exportJob_table d jobId = Some job"
      and entry: "db st = db (loop_entry d jobId job)"
  shows "exportJob_table (db (GET pf d jobId)) jobId =
           map_option (\<lambda>j. j\<lparr>j_status := DONE\<rparr>)
             (exportJob_table (db (fst (export_loop pf jobId (GET_where (j_filters job))
                (j_totalRows job) st (j_lastCursor job) (j_rowsExported job)))) jobId)"
proof -
  have "\<exists>st' r' job'.
          export_loop pf jobId (GET_where (j_filters job)) (j_totalRows job)
             (loop_entry d jobId job) (j_lastCursor job) (j_rowsExported job) = (st', Inr r') \<and>
          exportJob_table (db st') jobId = Some job' \<and> True"
    by (rule loop_returns [OF loop_entry_found])
  then obtain st' r' job' where
    loop: "export_loop pf jobId (GET_where (j_filters job)) (j_totalRows job)
             (loop_entry d jobId job) (j_lastCursor job) (j_rowsExported job) = (st', Inr r')"
    and found': "exportJob_table (db st') jobId = Some job'"
    by blast
  have "db (fst (export_loop pf jobId (GET_where (j_filters job)) (j_totalRows job) st
               (j_lastCursor job) (j_rowsExported job))) = db st'"
    using export_loop_db_only [OF entry, of pf jobId "GET_where (j_filters job)" "j_totalRows job"
        "j_lastCursor job" "j_rowsExported job"] loop by simp
  then show ?thesis
    by (simp add: GET_found [OF found loop found'] found')
qed

lemma db_after_first_chunk_found:
  assumes "exportJob_table d jobId = Some job"
  shows "db_after_first_chunk pf d jobId =
           (case export_chunk pf jobId (GET_where (j_filters job)) (j_totalRows job)
                   (loop_entry d jobId job) (j_lastCursor job) (j_rowsExported job) of
              Break st' \<Rightarrow> db st'
            | Threw st' e \<Rightarrow> db st'
            | Continue st' cursor' rowsExported' \<Rightarrow> db st')"
proof -
  have fj: "find_job (open_stream d) jobId =
              (\<lparr>db = d, enqueued = [], calls = [FindUnique jobId (Some job)], closed = False\<rparr>, Some job)"
    using assms by (simp add: find_job_def prisma_exportJob_findUnique_def open_stream_def Let_def)
  have uj: "update_job \<lparr>db = d, enqueued = [], calls = [FindUnique jobId (Some job)], closed = False\<rparr>
              jobId (status_data PROCESSING) =
            (\<lparr>db = d\<lparr>exportJob_table := (exportJob_table d)(jobId \<mapsto> job\<lparr>j_status := PROCESSING\<rparr>)\<rparr>,
              enqueued = [],
              calls = [FindUnique jobId (Some job),
                       Update jobId (status_data PROCESSING) (Inr (job\<lparr>j_status := PROCESSING\<rparr>))],
              closed = False\<rparr>, None)"
    using assms by (simp add: update_job_found [of _ _ job] apply_status_data)
  show ?thesis
    by (simp add: db_after_first_chunk_def fj uj send_def loop_entry_def [symmetric])
qed

lemma db_after_first_chunk_missing:
  assumes "exportJob_table d jobId = None"
  shows "db_after_first_chunk pf d jobId = d"
  using assms
  by (simp add: db_after_first_chunk_def find_job_def prisma_exportJob_findUnique_def
      open_stream_def Let_def)

lemma one_pass_equals_two_passes:
  "exportJob_table (db (GET pf d jobId)) jobId =
   exportJob_table (db (GET pf (db_after_first_chunk pf d jobId) jobId)) jobId"
proof (cases "exportJob_table d jobId")
  case None
  then show ?thesis by (simp add: db_after_first_chunk_missing)
next
  case (Some job)
  let ?whr = "GET_where (j_filters job)" and ?tot = "j_totalRows job"
  let ?c = "j_lastCursor job" and ?r = "j_rowsExported job"
  let ?e = "loop_entry d jobId job"
  let ?d1 = "db_after_first_chunk pf d jobId"
  note one = GET_final_job [OF Some refl, of pf]
  show ?thesis
  proof (cases "prisma_product_findMany pf (db ?e) ?whr ?c CHUNK_SIZE = []")
    case True
    note ch = export_chunk_empty [OF True, of jobId ?tot ?r]
    have d1: "?d1 = db ?e"
      by (simp add: db_after_first_chunk_found [OF Some] ch)
    have found1: "exportJob_table ?d1 jobId = Some (job\<lparr>j_status := PROCESSING\<rparr>)"
      by (simp add: d1 loop_entry_def)
    have entry1: "db ?e = db (loop_entry ?d1 jobId (job\<lparr>j_status := PROCESSING\<rparr>))"
      by (simp add: d1) (simp add: loop_entry_def)
    from GET_final_job [OF found1 entry1, of pf] one show ?thesis by simp
  next
    case False
    define ps where "ps = prisma_product_findMany pf (db ?e) ?whr ?c CHUNK_SIZE"
    have ps: "prisma_product_findMany pf (db ?e) ?whr ?c CHUNK_SIZE = ps" "ps \<noteq> []"
      using False by (simp_all add: ps_def)
    let ?c' = "p_id (last ps)" and ?r' = "?r + int (length ps)"
    let ?job2 = "job\<lparr>j_lastCursor := ?c', j_rowsExported := ?r', j_status := PROCESSING\<rparr>"
    note ch = export_chunk_found [OF loop_entry_found ps, of ?tot ?r]
    define st1 where "st1 = ?e\<lparr>db := (db ?e)\<lparr>exportJob_table := (exportJob_table (db ?e))
                       (jobId \<mapsto> apply_data (job\<lparr>j_status := PROCESSING\<rparr>) (progress_data ?c' ?r'))\<rparr>,
                 enqueued := enqueued ?e @
                    [Message (concat (map (rowToCsvLine pf) ps)), Progress ?r' ?tot],
                 calls := calls ?e @
                    [FindMany \<lparr>fa_where = ?whr, fa_id_gt = ?c, fa_take = CHUNK_SIZE\<rparr> ps,
                     Update jobId (progress_data ?c' ?r')
                       (Inr (apply_data (job\<lparr>j_status := PROCESSING\<rparr>) (progress_data ?c' ?r')))]\<rparr>"
    have ch': "export_chunk pf jobId ?whr ?tot ?e ?c ?r = Continue st1 ?c' ?r'"
      using ch by (simp add: st1_def)
    have d1: "?d1 = db st1"
      by (simp add: db_after_first_chunk_found [OF Some] ch')
    have found1: "exportJob_table ?d1 jobId = Some ?job2"
      by (simp add: d1 st1_def apply_progress_data)
    have entry1: "db st1 = db (loop_entry ?d1 jobId ?job2)"
      by (simp add: d1) (simp add: st1_def loop_entry_def apply_progress_data)
    have unroll: "export_loop pf jobId ?whr ?tot ?e ?c ?r = export_loop pf jobId ?whr ?tot st1 ?c' ?r'"
      by (subst export_loop.simps) (simp add: ch')
    from GET_final_job [OF found1 entry1, of pf] one unroll show ?thesis by simp
  qed
qed


text \<open>
  Claim C4. For a fixed table, a run to completion leaves the job row (cursor, count of
  exported rows, status and all) exactly as the two-pass run does, in which the first pass
  stops after persisting chunk 1 and a second invocation resumes from what is in the store.
  When the job is in the store, that job row exists and is DONE.
\<close>

theorem resume_reaches_same_progress:
  "exportJob_table (db (GET pf d jobId)) jobId =
     exportJob_table (db (GET pf (db_after_first_chunk pf d jobId) jobId)) jobId \<and>
   (exportJob_table d jobId = Some job \<longrightarrow>
      (\<exists>job'. exportJob_table (db (GET pf d jobId)) jobId = Some job' \<and> j_status job' = DONE))"
proof (intro conjI impI)
  show "exportJob_table (db (GET pf d jobId)) jobId =
     exportJob_table (db (GET pf (db_after_first_chunk pf d jobId) jobId)) jobId"
    by (rule one_pass_equals_two_passes)
next
  assume found: "exportJob_table d jobId = Some job"
  have "\<exists>st' r' job'.
          export_loop pf jobId (GET_where (j_filters job)) (j_totalRows job)
             (loop_entry d jobId job) (j_lastCursor job) (j_rowsExported job) = (st', Inr r') \<and>
          exportJob_table (db st') jobId = Some job' \<and> True"
    by (rule loop_returns [OF loop_entry_found])
  then obtain st' r' job' where
    loop: "export_loop pf jobId (GET_where (j_filters job)) (j_totalRows job)
             (loop_entry d jobId job) (j_lastCursor job) (j_rowsExported job) = (st', Inr r')"
    and found': "exportJob_table (db st') jobId = Some job'"
    by blast
  show "\<exists>job'. exportJob_table (db (GET pf d jobId)) jobId = Some job' \<and> j_status job' = DONE"
    by (simp add: GET_found [OF found loop found'])
qed

theorem resume_reaches_same_progress_witness:
  "exportJob_table resumed_db ''job-1'' = Some resumed_job \<and>
   exportJob_table
     (db (GET sample_platform (db_after_first_chunk sample_platform resumed_db ''job-1'') ''job-1''))
     ''job-1'' =
     Some (resumed_job\<lparr>j_lastCursor := 3, j_rowsExported := 3, j_status := DONE\<rparr>)"
proof -
  have found: "exportJob_table resumed_db ''job-1'' = Some resumed_job"
    by (simp add: resumed_db_def)
  have one: "exportJob_table (db (GET sample_platform resumed_db ''job-1'')) ''job-1'' =
               Some (resumed_job\<lparr>j_lastCursor := 3, j_rowsExported := 3, j_status := DONE\<rparr>)"
    unfolding GET_one_chunk [OF found resumed_fetches(1) _ resumed_fetches(2), simplified]
    by (simp add: sample_row_def resumed_job_def)
  from resume_reaches_same_progress [of sample_platform resumed_db "''job-1''" resumed_job]
  show ?thesis using found one by simp
qed


section \<open>How many chunk queries a run makes\<close>

lemma cursor_writes_append: "cursor_writes (xs @ ys) = cursor_writes xs @ cursor_writes ys"
  by (induction xs rule: cursor_writes.induct) (simp_all split: option.splits)

lemma progress_data_cursor: "d_lastCursor (progress_data c n) = Some c"
  by (simp add: progress_data_def)

lemma findMany_remaining:
  "prisma_product_findMany pf d whr c n = take n (remaining pf d whr c)"
  by (simp add: prisma_product_findMany_def remaining_def)

lemma remaining_table:
  "product_table d' = product_table d \<Longrightarrow> remaining pf d' whr c = remaining pf d whr c"
  by (simp add: remaining_def)

lemma remaining_strict:
  assumes "distinct (map p_id (product_table d))"
  shows "sorted_wrt (<) (map p_id (remaining pf d whr c))"
proof -
  let ?ys = "filter (\<lambda>r. row_matches pf whr r \<and> c < p_id r) (product_table d)"
  have "distinct (map p_id ?ys)" using assms by (rule distinct_map_filter)
  then have "distinct (map p_id (sort_key p_id ?ys))"
    by (simp add: distinct_map)
  moreover have "sorted (map p_id (sort_key p_id ?ys))" by (rule sorted_sort_key)
  ultimately show ?thesis by (simp add: strict_sorted_iff remaining_def)
qed

lemma beyond_last_taken:
  assumes strict: "sorted_wrt (<) (map p_id xs)" and "0 < n" "xs \<noteq> []"
  shows "filter (\<lambda>r. p_id (last (take n xs)) < p_id r) xs = drop n xs"
proof -
  let ?t = "take n xs" and ?d = "drop n xs"
  have ne: "?t \<noteq> []" using assms(2,3) by simp
  have split: "sorted_wrt (<) (map p_id ?t @ map p_id ?d)"
    using strict by (simp flip: map_append)
  then have st: "sorted_wrt (<) (map p_id ?t)"
    and cross: "\<forall>x \<in> set ?t. \<forall>y \<in> set ?d. p_id x < p_id y"
    by (auto simp: sorted_wrt_append)
  have "sorted (map p_id ?t)" using st by (simp add: strict_sorted_iff)
  then have below: "\<forall>x \<in> set ?t. p_id x \<le> p_id (last ?t)"
    using sorted_le_last [of "map p_id ?t"] ne by (auto simp: last_map)
  have "last ?t \<in> set ?t" using ne by (rule last_in_set)
  then have above: "\<forall>y \<in> set ?d. p_id (last ?t) < p_id y" using cross by blast
  have t: "filter (\<lambda>r. p_id (last ?t) < p_id r) ?t = []"
    using below by (auto simp: filter_empty_conv)
  have d: "filter (\<lambda>r. p_id (last ?t) < p_id r) ?d = ?d"
    using above by (auto simp: filter_id_conv)
  have "filter (\<lambda>r. p_id (last ?t) < p_id r) xs =
        filter (\<lambda>r. p_id (last ?t) < p_id r) ?t @ filter (\<lambda>r. p_id (last ?t) < p_id r) ?d"
    by (simp only: filter_append [symmetric] append_take_drop_id)
  then show ?thesis by (simp only: t d append_Nil)
qed

lemma remaining_after_chunk:
  assumes "distinct (map p_id (product_table d))" "0 < n" "remaining pf d whr c \<noteq> []"
  shows "remaining pf d whr (p_id (last (take n (remaining pf d whr c)))) =
           drop n (remaining pf d whr c)"
proof -
  let ?xs = "remaining pf d whr c"
  define c' where "c' = p_id (last (take n ?xs))"
  have "take n ?xs \<noteq> []" using assms(2,3) by simp
  then have "last (take n ?xs) \<in> set ?xs"
    using last_in_set [of "take n ?xs"] set_take_subset [of n ?xs] by blast
  then have lt: "c < c'" by (auto simp: remaining_def c'_def)
  have "filter (\<lambda>r. c' < p_id r) ?xs =
        sort_key p_id (filter (\<lambda>r. c' < p_id r)
          (filter (\<lambda>r. row_matches pf whr r \<and> c < p_id r) (product_table d)))"
    unfolding remaining_def by (rule filter_sort)
  also have "\<dots> = remaining pf d whr c'"
    unfolding remaining_def filter_filter using lt
    by (intro arg_cong [where f = "sort_key p_id"] filter_cong) auto
  finally have "remaining pf d whr c' = filter (\<lambda>r. c' < p_id r) ?xs" by simp
  then show ?thesis
    using beyond_last_taken [OF remaining_strict [OF assms(1)] assms(2,3)]
    by (simp add: c'_def)
qed

lemma chunk_lengths_step:
  "0 < n \<Longrightarrow> chunk_lengths n = min n CHUNK_SIZE # chunk_lengths (n - CHUNK_SIZE)"
  by (subst chunk_lengths.simps) simp

lemma loop_chunk_lengths:
  assumes found: "exportJob_table d jobId = Some job"
      and keys: "distinct (map p_id (product_table d))"
  shows "\<exists>st' r' job'.
           export_loop pf jobId (GET_where (j_filters job)) (j_totalRows job)
             (loop_entry d jobId job) (j_lastCursor job) (j_rowsExported job) = (st', Inr r') \<and>
           exportJob_table (db st') jobId = Some job' \<and>
           (map length (map snd (fetches (calls st'))) =
              chunk_lengths (length (remaining pf d (GET_where (j_filters job)) (j_lastCursor job))) \<and>
            Suc (length (cursor_writes (calls st'))) =
              length (chunk_lengths (length (remaining pf d (GET_where (j_filters job)) (j_lastCursor job)))) \<and>
            r' = j_rowsExported job +
                   int (length (remaining pf d (GET_where (j_filters job)) (j_lastCursor job))) \<and>
            j_rowsExported job' = r')"
proof -
  let ?whr = "GET_where (j_filters job)"
  let ?n0 = "length (remaining pf d ?whr (j_lastCursor job))"
  show ?thesis
  proof (rule export_loop_rule
    [where I = "\<lambda>st c r j. product_table (db st) = product_table d \<and> j_rowsExported j = r \<and>
                  map length (map snd (fetches (calls st))) @
                    chunk_lengths (length (remaining pf d ?whr c)) = chunk_lengths ?n0 \<and>
                  length (cursor_writes (calls st)) +
                    length (chunk_lengths (length (remaining pf d ?whr c))) =
                    length (chunk_lengths ?n0) \<and>
                  r + int (length (remaining pf d ?whr c)) = j_rowsExported job + int ?n0"
       and Q = "\<lambda>st r j. map length (map snd (fetches (calls st))) = chunk_lengths ?n0 \<and>
                  Suc (length (cursor_writes (calls st))) = length (chunk_lengths ?n0) \<and>
                  r = j_rowsExported job + int ?n0 \<and> j_rowsExported j = r"
       and job = "job\<lparr>j_status := PROCESSING\<rparr>"], goal_cases)
    case 1
    show ?case by (rule loop_entry_found)
  next
    case 2
    show ?case by (simp add: loop_entry_def status_data_def)
  next
    case (3 st c r j ps)
    let ?xs = "remaining pf d ?whr c"
    from 3 have tbl: "product_table (db st) = product_table d" by simp
    from 3 have ps: "ps = take CHUNK_SIZE ?xs"
      by (simp add: findMany_remaining remaining_table [OF tbl])
    with 3 have ne: "?xs \<noteq> []" by auto
    have pos: "0 < CHUNK_SIZE" by (simp add: CHUNK_SIZE_def)
    have rest: "remaining pf d ?whr (p_id (last ps)) = drop CHUNK_SIZE ?xs"
      unfolding ps by (rule remaining_after_chunk [OF keys pos ne])
    have len: "length ps = min (length ?xs) CHUNK_SIZE" by (simp add: ps min.commute)
    have cl: "chunk_lengths (length ?xs) =
                length ps # chunk_lengths (length (remaining pf d ?whr (p_id (last ps))))"
      using ne by (simp add: chunk_lengths_step rest len)
    have sum: "int (length ps) + int (length (remaining pf d ?whr (p_id (last ps)))) = int (length ?xs)"
      by (simp add: rest len)
    from 3 cl sum show ?case
      by (simp add: fetches_append cursor_writes_append apply_progress_data progress_data_cursor)
  next
    case (4 st c r j)
    let ?xs = "remaining pf d ?whr c"
    from 4 have tbl: "product_table (db st) = product_table d" by simp
    from 4 have "take CHUNK_SIZE ?xs = []"
      by (simp add: findMany_remaining remaining_table [OF tbl])
    then have "?xs = []" by (simp add: CHUNK_SIZE_def)
    with 4 show ?case
      by (simp add: fetches_append cursor_writes_append chunk_lengths.simps [of 0])
  qed
qed

lemma GET_chunk_lengths:
  assumes found: "exportJob_table d jobId = Some job"
      and keys: "distinct (map p_id (product_table d))"
      and n: "length (remaining pf d (GET_where (j_filters job)) (j_lastCursor job)) = n"
  shows "map length (map snd (fetches (calls (GET pf d jobId)))) = chunk_lengths n"
    and "Suc (length (cursor_writes (calls (GET pf d jobId)))) = length (chunk_lengths n)"
    and "map_option j_rowsExported (exportJob_table (db (GET pf d jobId)) jobId) =
           Some (j_rowsExported job + int n)"
    and "map_option j_status (exportJob_table (db (GET pf d jobId)) jobId) = Some DONE"
    and "last (enqueued (GET pf d jobId)) = DoneEvent (j_rowsExported job + int n)"
proof -
  from loop_chunk_lengths [OF found keys, of pf] obtain st' r' job' where
    loop: "export_loop pf jobId (GET_where (j_filters job)) (j_totalRows job)
             (loop_entry d jobId job) (j_lastCursor job) (j_rowsExported job) = (st', Inr r')"
    and found': "exportJob_table (db st') jobId = Some job'"
    and a: "map length (map snd (fetches (calls st'))) = chunk_lengths n"
    and b: "Suc (length (cursor_writes (calls st'))) = length (chunk_lengths n)"
    and c: "r' = j_rowsExported job + int n" "j_rowsExported job' = r'"
    unfolding n by blast
  note g = GET_found [OF found loop found']
  show "map length (map snd (fetches (calls (GET pf d jobId)))) = chunk_lengths n"
    using a by (simp add: g fetches_append)
  show "Suc (length (cursor_writes (calls (GET pf d jobId)))) = length (chunk_lengths n)"
    using b by (simp add: g cursor_writes_append status_data_def)
  show "map_option j_rowsExported (exportJob_table (db (GET pf d jobId)) jobId) =
           Some (j_rowsExported job + int n)"
    using c by (simp add: g)
  show "map_option j_status (exportJob_table (db (GET pf d jobId)) jobId) = Some DONE"
    by (simp add: g)
  show "last (enqueued (GET pf d jobId)) = DoneEvent (j_rowsExported job + int n)"
    using c by (simp add: g)
qed

lemma chunk_lengths_2500: "chunk_lengths 2500 = [1000, 1000, 500, 0]"
  by (simp add: chunk_lengths.simps CHUNK_SIZE_def)

lemma chunk_lengths_1000: "chunk_lengths CHUNK_SIZE = [1000, 0]"
  by (simp add: chunk_lengths.simps CHUNK_SIZE_def)


lemma remaining_from_zero:
  assumes "list_all (\<lambda>r. 0 < p_id r) (product_table d)"
  shows "length (remaining pf d whr 0) = length (filter (row_matches pf whr) (product_table d))"
proof -
  have "filter (\<lambda>r. row_matches pf whr r \<and> 0 < p_id r) (product_table d) =
        filter (row_matches pf whr) (product_table d)"
    using assms by (intro filter_cong) (auto simp: list_all_iff)
  then show ?thesis by (simp add: remaining_def)
qed

text \<open>
  Claim C8, as the code has it. On a table whose ids are distinct and positive, a run on a
  fresh job (cursor 0, count 0) whose filters match exactly 2500 rows makes four chunk
  queries, returning 1000, 1000, 500 and 0 rows (the loop ends only on an empty query),
  persists three cursor advances, ends with \<open>rowsExported\<close> = 2500 and leaves the job
  DONE; when exactly \<open>CHUNK_SIZE\<close> rows match, it makes one query that returns
  \<open>CHUNK_SIZE\<close> rows, then one that returns none, and leaves the job DONE.
\<close>

theorem fetch_counts:
  assumes found: "exportJob_table d jobId = Some job"
      and fresh: "j_lastCursor job = 0" "j_rowsExported job = 0"
      and keys: "distinct (map p_id (product_table d))"
      and positive: "list_all (\<lambda>r. 0 < p_id r) (product_table d)"
  shows "(length (filter (row_matches pf (GET_where (j_filters job))) (product_table d)) = 2500 \<longrightarrow>
            map length (map snd (fetches (calls (GET pf d jobId)))) = [1000, 1000, 500, 0] \<and>
            length (cursor_writes (calls (GET pf d jobId))) = 3 \<and>
            map_option j_rowsExported (exportJob_table (db (GET pf d jobId)) jobId) = Some 2500 \<and>
            map_option j_status (exportJob_table (db (GET pf d jobId)) jobId) = Some DONE) \<and>
         (length (filter (row_matches pf (GET_where (j_filters job))) (product_table d)) = CHUNK_SIZE \<longrightarrow>
            map length (map snd (fetches (calls (GET pf d jobId)))) = [CHUNK_SIZE, 0] \<and>
            map_option j_status (exportJob_table (db (GET pf d jobId)) jobId) = Some DONE)"
proof (intro conjI impI)
  assume n: "length (filter (row_matches pf (GET_where (j_filters job))) (product_table d)) = 2500"
  have rem: "length (remaining pf d (GET_where (j_filters job)) (j_lastCursor job)) = 2500"
    using remaining_from_zero [OF positive, of pf "GET_where (j_filters job)"] n fresh by simp
  note g = GET_chunk_lengths [OF found keys rem]
  show "map length (map snd (fetches (calls (GET pf d jobId)))) = [1000, 1000, 500, 0]"
    using g(1) by (simp add: chunk_lengths_2500)
  show "length (cursor_writes (calls (GET pf d jobId))) = 3"
    using g(2) by (simp add: chunk_lengths_2500)
  show "map_option j_rowsExported (exportJob_table (db (GET pf d jobId)) jobId) = Some 2500"
    using g(3) fresh by simp
  show "map_option j_status (exportJob_table (db (GET pf d jobId)) jobId) = Some DONE"
    by (rule g(4))
next
  assume n: "length (filter (row_matches pf (GET_where (j_filters job))) (product_table d)) = CHUNK_SIZE"
  have rem: "length (remaining pf d (GET_where (j_filters job)) (j_lastCursor job)) = CHUNK_SIZE"
    using remaining_from_zero [OF positive, of pf "GET_where (j_filters job)"] n fresh by simp
  note g = GET_chunk_lengths [OF found keys rem]
  show "map length (map snd (fetches (calls (GET pf d jobId)))) = [CHUNK_SIZE, 0]"
    using g(1) by (simp add: chunk_lengths_1000) (simp add: CHUNK_SIZE_def)
  show "map_option j_status (exportJob_table (db (GET pf d jobId)) jobId) = Some DONE"
    by (rule g(4))
qed

lemma numbered_found: "exportJob_table (numbered_db n) ''job-1'' = Some (fresh_job n)"
  by (simp add: numbered_db_def)

lemma numbered_keys: "distinct (map p_id (product_table (numbered_db n)))"
proof -
  have "map p_id (numbered_table n) = map int [1..<Suc n]"
    by (simp add: numbered_table_def sample_row_def)
  then show ?thesis by (simp add: numbered_db_def distinct_map)
qed

lemma numbered_positive: "list_all (\<lambda>r. 0 < p_id r) (product_table (numbered_db n))"
  by (auto simp: numbered_db_def numbered_table_def sample_row_def list_all_iff)

lemma numbered_count:
  "length (filter (row_matches sample_platform (GET_where (j_filters (fresh_job n))))
     (product_table (numbered_db n))) = n"
proof -
  have "row_matches sample_platform (GET_where no_filters) r" for r :: "(nat, string) ProductRow"
    by (simp add: row_matches_def GET_where_def no_filters_def)
  then show ?thesis
    by (simp add: fresh_job_def numbered_db_def numbered_table_def)
qed

theorem fetch_counts_witness:
  "exportJob_table (numbered_db 2500) ''job-1'' = Some (fresh_job 2500) \<and>
   length (filter (row_matches sample_platform (GET_where (j_filters (fresh_job 2500))))
     (product_table (numbered_db 2500))) = 2500 \<and>
   length (cursor_writes (calls (GET sample_platform (numbered_db 2500) ''job-1''))) = 3 \<and>
   map_option j_rowsExported
     (exportJob_table (db (GET sample_platform (numbered_db 2500) ''job-1'')) ''job-1'') = Some 2500 \<and>
   map length (map snd (fetches (calls (GET sample_platform (numbered_db 1000) ''job-1'')))) =
     [1000, 0]"
proof -
  have fresh: "j_lastCursor (fresh_job n) = 0" "j_rowsExported (fresh_job n) = 0" for n
    by (simp_all add: fresh_job_def)
  note big = fetch_counts [OF numbered_found [of 2500] fresh [of 2500] numbered_keys [of 2500]
      numbered_positive [of 2500], of sample_platform]
  note full = fetch_counts [OF numbered_found [of 1000] fresh [of 1000] numbered_keys [of 1000]
      numbered_positive [of 1000], of sample_platform]
  from big full show ?thesis
    by (simp add: numbered_found numbered_count CHUNK_SIZE_def)
qed

text \<open>
  On the table of 2500 numbered rows the run makes four chunk queries, not three.
\<close>

theorem four_fetches_for_2500_rows:
  "map length (map snd (fetches (calls (GET sample_platform (numbered_db 2500) ''job-1'')))) =
     [1000, 1000, 500, 0]"
proof -
  have "length (remaining sample_platform (numbered_db 2500)
          (GET_where (j_filters (fresh_job 2500))) (j_lastCursor (fresh_job 2500))) = 2500"
    using remaining_from_zero [OF numbered_positive [of 2500], of sample_platform
        "GET_where (j_filters (fresh_job 2500))"] numbered_count [of 2500]
    by (simp add: fresh_job_def)
  from GET_chunk_lengths(1) [OF numbered_found numbered_keys this] show ?thesis
    by (simp add: chunk_lengths_2500)
qed


end
